theory Spec2Isabelle
  imports Complex_Main "HOL-Library.Sublist"
begin

section \<open>The transport client (src/stretch/agent/zmq\_client.py)\<close>

text \<open>
  The client is modelled by explicit state passing.  A Python exception is a value
  \<open>Inl (e, c)\<close>: the error together with the client state at the raise; a normal
  return is \<open>Inr\<close>.  Time is the field \<open>clock\<close>: \<open>time.sleep d\<close> advances it by
  exactly \<open>d\<close> and \<open>timeit.default_timer()\<close> reads it (computation between two reads
  takes no time).  The receive thread is the field \<open>feed\<close>: the frames it is going to
  publish, grouped by the polling opportunity of the calling thread at which they
  arrive; the mutual exclusion of the two locks is not modelled beyond the fact that
  every locked region runs atomically.
\<close>

datatype error =
  ValueError | AssertionError | IndexError | TypeError | NameError | AttributeError
  | ZeroDivisionError | Timeout | BdbQuit

text \<open>
  What the debugger hook does at one call of \<open>breakpoint()\<close>.  The hook
  (\<open>sys.breakpointhook\<close>) and whoever sits at the debugger are not part of the
  sources: at each stop either control comes back after so many seconds (at once when
  the hook is disabled), or the session is quit and \<open>BdbQuit\<close> is raised.
\<close>

datatype hook_reply = Resumes real | Quits

text \<open>The keys of an incoming observation that the client's control flow reads.\<close>

record observation =
  gps :: "real \<times> real"
  compass :: real
  at_goal :: bool
  obs_step :: int
  obs_control_mode :: string

text \<open>The outgoing command record \<open>self._next_action\<close>: a dict, each key present or not.\<close>

record action =
  joint :: "real list option"
  manip_blocking :: "bool option"
  xyt :: "real list option"
  nav_relative :: "bool option"
  nav_blocking :: "bool option"
  gripper :: "real option"
  gripper_blocking :: "bool option"
  control_mode :: "string option"
  posture :: "string option"
  step :: "int option"

definition empty_action :: action where
  "empty_action =
     \<lparr>joint = None, manip_blocking = None, xyt = None, nav_relative = None,
      nav_blocking = None, gripper = None, gripper_blocking = None,
      control_mode = None, posture = None, step = None\<rparr>"

record client =
  iter :: int
  seq_id :: int
  next_action :: action
  obs :: "observation option"
  last_step :: int
  cur_control_mode :: "string option"
  finish :: bool
  moving_threshold :: real
  angle_threshold :: real
  min_steps_not_moving :: int
  sent :: "action list"
  clock :: real
  feed :: "observation list list"
  debugger :: "hook_reply list"

text \<open>
  \<open>reset\<close> and the part of \<open>__init__\<close> that sets attributes.  The field \<open>debugger\<close>
  lists what the debugger hook is going to do, one reply per stop; when no reply is
  left, nobody ever answers the debugger.
\<close>

definition init_client :: "real \<Rightarrow> real \<Rightarrow> int \<Rightarrow> observation list list \<Rightarrow> client" where
  "init_client mt ath ms fd =
     \<lparr>iter = 0, seq_id = 0, next_action = empty_action, obs = None, last_step = - 1,
      cur_control_mode = None, finish = False, moving_threshold = mt,
      angle_threshold = ath, min_steps_not_moving = ms, sent = [], clock = 0, feed = fd,
      debugger = []\<rparr>"

definition sleep :: "real \<Rightarrow> client \<Rightarrow> client" where
  "sleep d c = c\<lparr>clock := clock c + d\<rparr>"


text \<open>\<open>_update_obs\<close>, run by the receive loop under the observation lock.\<close>

definition update_obs :: "observation \<Rightarrow> client \<Rightarrow> client" where
  "update_obs ob c =
     (let c1 = c\<lparr>obs := Some ob, cur_control_mode := Some (obs_control_mode ob),
                  last_step := obs_step ob\<rparr>
      in if iter c1 \<le> 0 then c1\<lparr>iter := last_step c1\<rparr> else c1)"

text \<open>One pass of \<open>blocking_spin\<close> per received frame: count it, then publish it.\<close>

definition spin_once :: "client \<Rightarrow> observation \<Rightarrow> client" where
  "spin_once c ob = update_obs ob (c\<lparr>seq_id := seq_id c + 1\<rparr>)"

text \<open>The receive thread runs: it publishes the frames that arrived since the last poll.\<close>

definition recv :: "client \<Rightarrow> client" where
  "recv c = (case feed c of [] \<Rightarrow> c | fs # rest \<Rightarrow> foldl spin_once (c\<lparr>feed := rest\<rparr>) fs)"

text \<open>\<open>get_observation\<close>: the latest frame with its sequence number, or \<open>None\<close>.\<close>

definition get_observation :: "client \<Rightarrow> (observation \<times> int) option" where
  "get_observation c = (case obs c of None \<Rightarrow> None | Some ob \<Rightarrow> Some (ob, seq_id c))"

subsection \<open>The convergence wait\<close>

text \<open>\<open>np.linalg.norm (pos - last_pos)\<close> on the two-element gps vector.\<close>

definition norm2 :: "real \<times> real \<Rightarrow> real \<times> real \<Rightarrow> real" where
  "norm2 p q = sqrt ((fst p - fst q)\<^sup>2 + (snd p - snd q)\<^sup>2)"

text \<open>The local variables of \<open>_wait_for_action\<close> that live across iterations.\<close>

record wait_locals =
  last_pos :: "(real \<times> real) option"
  last_ang :: "real option"
  not_moving_count :: int

definition wait_start :: wait_locals where
  "wait_start = \<lparr>last_pos = None, last_ang = None, not_moving_count = 0\<rparr>"

text \<open>
  The arguments of \<open>_wait_for_action\<close> after its defaults are resolved.
  \<open>angle_difference\<close> (stretch.utils.geometry) is not part of the sources: it is the
  parameter \<open>ad\<close> of every function that calls it.
\<close>

record wait_args =
  block_id :: int
  timeout :: real
  w_moving_threshold :: real
  w_angle_threshold :: real
  w_min_steps_not_moving :: int

text \<open>
  The body of \<open>with self._obs_lock\<close> in one iteration.  The flag says whether the
  loop breaks.
\<close>

definition poll_obs ::
  "(real \<Rightarrow> real \<Rightarrow> real) \<Rightarrow> wait_args \<Rightarrow> wait_locals \<Rightarrow> client \<Rightarrow> bool \<times> wait_locals \<times> client" where
  "poll_obs ad a w c =
     (case obs c of
        None \<Rightarrow> (False, w, c)
      | Some ob \<Rightarrow>
          (let pos = gps ob;
               ang = compass ob;
               moved_dist = (case last_pos w of Some lp \<Rightarrow> norm2 pos lp | None \<Rightarrow> 0);
               angle_dist = (case last_ang w of Some la \<Rightarrow> ad ang la | None \<Rightarrow> 0);
               not_moving = (last_pos w \<noteq> None \<and> moved_dist < w_moving_threshold a
                               \<and> angle_dist < w_angle_threshold a);
               cnt = (if not_moving then not_moving_count w + 1 else 0);
               w' = \<lparr>last_pos = Some pos, last_ang = Some ang, not_moving_count = cnt\<rparr>
           in if block_id a \<le> last_step c \<and> at_goal ob \<and> w_min_steps_not_moving a < cnt
              then (True, w', c)
              else (False, w', c\<lparr>obs := None\<rparr>)))"

text \<open>Facts about the clock, needed to show that the polling loops end.\<close>

lemma clock_spin_once [simp]: "clock (spin_once c ob) = clock c"
  by (simp add: spin_once_def update_obs_def Let_def)

lemma clock_foldl_spin [simp]: "clock (foldl spin_once c fs) = clock c"
  by (induction fs arbitrary: c) simp_all

lemma clock_recv [simp]: "clock (recv c) = clock c"
  by (simp add: recv_def split: list.splits)

lemma clock_poll_obs [simp]: "clock (snd (snd (poll_obs ad a w c))) = clock c"
  by (simp add: poll_obs_def Let_def split: option.splits)

lemma clock_sleep [simp]: "clock (sleep d c) = clock c + d"
  by (simp add: sleep_def)

lemma ticks_decrease:
  fixes lim x d :: real
  assumes "0 < d" and "x \<le> lim"
  shows "nat (\<lceil>(lim - (x + d)) / d\<rceil> + 1) < nat (\<lceil>(lim - x) / d\<rceil> + 1)"
proof -
  have "(lim - (x + d)) / d = (lim - x) / d - 1"
    using assms by (simp add: field_simps)
  then have "\<lceil>(lim - (x + d)) / d\<rceil> = \<lceil>(lim - x) / d\<rceil> - 1"
    by simp
  moreover have "0 \<le> (lim - x) / d"
    using assms by simp
  then have "0 \<le> \<lceil>(lim - x) / d\<rceil>"
    by (metis ceiling_mono ceiling_zero)
  ultimately show ?thesis by simp
qed

text \<open>
  The \<open>while True\<close> loop: let the receive thread publish, poll under the lock, sleep
  10 ms, read the clock, raise when more than \<open>timeout\<close> has passed since \<open>t0\<close>.
\<close>

function wait_loop ::
  "(real \<Rightarrow> real \<Rightarrow> real) \<Rightarrow> wait_args \<Rightarrow> real \<Rightarrow> wait_locals \<Rightarrow> client
     \<Rightarrow> (error \<times> client) + (wait_locals \<times> client)" where
  "wait_loop ad a t0 w c =
     (let r = poll_obs ad a w (recv c) in
      if fst r then Inr (snd r)
      else (let c' = sleep 0.01 (snd (snd r)) in
            if timeout a < clock c' - t0 then Inl (Timeout, c')
            else wait_loop ad a t0 (fst (snd r)) c'))"
  by pat_completeness auto
termination
proof (relation "measure (\<lambda>(ad, a, t0, w, c). nat (\<lceil>(t0 + timeout a - clock c) / 0.01\<rceil> + 1))")
  show "wf (measure (\<lambda>(ad, a, t0, w, c). nat (\<lceil>(t0 + timeout a - clock c) / 0.01\<rceil> + 1)))"
    by simp
next
  fix ad :: "real \<Rightarrow> real \<Rightarrow> real" and a :: wait_args and t0 :: real
    and w :: wait_locals and c r c'
  assume "r = poll_obs ad a w (recv c)" "\<not> fst r" "c' = sleep 0.01 (snd (snd r))"
    and "\<not> timeout a < clock c' - t0"
  then have "clock c' = clock c + 0.01" and "clock c \<le> t0 + timeout a"
    by simp_all
  then show "((ad, a, t0, fst (snd r), c'), (ad, a, t0, w, c))
      \<in> measure (\<lambda>(ad, a, t0, w, c). nat (\<lceil>(t0 + timeout a - clock c) / 0.01\<rceil> + 1))"
    using ticks_decrease [of "0.01" "clock c" "t0 + timeout a"] by simp
qed

declare wait_loop.simps [simp del]

text \<open>
  \<open>_wait_for_action\<close>: resolve the optional arguments, read \<open>t0\<close>, run the loop.
  \<open>goal_angle\<close> only feeds the verbose printout.
\<close>

definition wait_for_action ::
  "(real \<Rightarrow> real \<Rightarrow> real) \<Rightarrow> int \<Rightarrow> real \<Rightarrow> real option \<Rightarrow> real option \<Rightarrow> int option
     \<Rightarrow> real option \<Rightarrow> client \<Rightarrow> (error \<times> client) + client" where
  "wait_for_action ad bid tmo mth ath msnm goal_angle c =
     (let a = \<lparr>block_id = bid, timeout = tmo,
                w_moving_threshold = (case mth of None \<Rightarrow> moving_threshold c | Some v \<Rightarrow> v),
                w_angle_threshold = (case ath of None \<Rightarrow> angle_threshold c | Some v \<Rightarrow> v),
                w_min_steps_not_moving =
                  (case msnm of None \<Rightarrow> min_steps_not_moving c | Some v \<Rightarrow> v)\<rparr>
      in case wait_loop ad a (clock c) wait_start c of
           Inl e \<Rightarrow> Inl e
         | Inr r \<Rightarrow> Inr (snd r))"

subsection \<open>Sending commands\<close>

text \<open>\<open>self._next_action["xyt"][2]\<close> when the key is present.\<close>

definition goal_angle_of :: "action \<Rightarrow> error + real option" where
  "goal_angle_of m =
     (case xyt m of
        None \<Rightarrow> Inr None
      | Some v \<Rightarrow> if 2 < length v then Inr (Some (v ! 2)) else Inl IndexError)"

text \<open>
  \<open>send_action\<close>.  The socket is the list \<open>sent\<close>.  The call of \<open>_wait_for_action\<close>
  leaves \<open>min_steps_not_moving\<close> at its default \<open>1\<close> and both thresholds at \<open>None\<close>.
\<close>

definition send_action ::
  "(real \<Rightarrow> real \<Rightarrow> real) \<Rightarrow> real \<Rightarrow> client \<Rightarrow> (error \<times> client) + client" where
  "send_action ad tmo c =
     (let blocking = (case nav_blocking (next_action c) of None \<Rightarrow> False | Some b \<Rightarrow> b);
          bid = iter c;
          msg = (next_action c)\<lparr>step := Some bid\<rparr>;
          c1 = c\<lparr>next_action := msg, iter := iter c + 1, sent := sent c @ [msg]\<rparr>
      in case goal_angle_of msg of
           Inl e \<Rightarrow> Inl (e, c1)
         | Inr goal_angle \<Rightarrow>
             (let c2 = sleep 0.2 (c1\<lparr>next_action := empty_action\<rparr>) in
              if blocking
              then (case wait_for_action ad bid tmo None None (Some 1) goal_angle c2 of
                      Inl e \<Rightarrow> Inl e
                    | Inr c3 \<Rightarrow> Inr (sleep 0.2 c3))
              else Inr c2))"

text \<open>
  \<open>arm_to\<close>.  \<open>config_to_manip_command\<close> belongs to the robot model, which is not
  part of the sources: it is the parameter \<open>cmc\<close>.
\<close>

definition arm_to ::
  "(real \<Rightarrow> real \<Rightarrow> real) \<Rightarrow> (real list \<Rightarrow> real list) \<Rightarrow> real list \<Rightarrow> bool \<Rightarrow> client
     \<Rightarrow> (error \<times> client) + client" where
  "arm_to ad cmc joint_angles blocking c =
     (let ja = (if 6 < length joint_angles then cmc joint_angles else joint_angles) in
      if length ja < 6 then Inl (ValueError, c)
      else if length ja \<noteq> 6 then Inl (AssertionError, c)
      else send_action ad 10
             (c\<lparr>next_action := (next_action c)\<lparr>joint := Some ja, manip_blocking := Some blocking\<rparr>\<rparr>))"

text \<open>\<open>navigate_to\<close>, on a pose that is already a vector.\<close>

definition navigate_to ::
  "(real \<Rightarrow> real \<Rightarrow> real) \<Rightarrow> real list \<Rightarrow> bool \<Rightarrow> bool \<Rightarrow> real \<Rightarrow> client
     \<Rightarrow> (error \<times> client) + client" where
  "navigate_to ad pose relative blocking tmo c =
     (if length pose \<noteq> 3 then Inl (AssertionError, c)
      else send_action ad tmo
             (c\<lparr>next_action := (next_action c)\<lparr>xyt := Some pose, nav_relative := Some relative,
                                                 nav_blocking := Some blocking\<rparr>\<rparr>))"

text \<open>\<open>gripper_to\<close>: after the send, a blocking call sleeps for two seconds.\<close>

definition gripper_to ::
  "(real \<Rightarrow> real \<Rightarrow> real) \<Rightarrow> real \<Rightarrow> bool \<Rightarrow> client \<Rightarrow> (error \<times> client) + client" where
  "gripper_to ad target blocking c =
     (case send_action ad 10
             (c\<lparr>next_action := (next_action c)\<lparr>gripper := Some target,
                                                 gripper_blocking := Some blocking\<rparr>\<rparr>) of
        Inl e \<Rightarrow> Inl e
      | Inr c1 \<Rightarrow> Inr (if blocking then sleep 2 c1 else c1))"

subsection \<open>Trajectories\<close>












text \<open>The client state a call leaves behind, whether it returned or raised.\<close>

definition state_of :: "(error \<times> client) + client \<Rightarrow> client" where
  "state_of r = (case r of Inl x \<Rightarrow> snd x | Inr c \<Rightarrow> c)"

definition wstate :: "(error \<times> client) + (wait_locals \<times> client) \<Rightarrow> client" where
  "wstate r = (case r of Inl x \<Rightarrow> snd x | Inr x \<Rightarrow> snd x)"

subsection \<open>Notions used to state the properties of the client\<close>






section \<open>The grasp operation (src/stretch/agent/operations/grasp\_object.py)\<close>

text \<open>
  Images are lists of rows.  What the operation asks of its collaborators (the robot,
  the segmentation sensor, the marker detector, the kinematics, the GUI, the clock)
  is supplied from outside, one \<open>frame\<close> for every iteration of the servo loop; what it
  tells the robot to do is appended to the list \<open>calls\<close>.  Printing and sleeping are
  left out.
\<close>

type_synonym mask = "bool list list"
type_synonym point3 = "real \<times> real \<times> real"

subsection \<open>Array operations\<close>

text \<open>An index into an axis of length \<open>n\<close>: negative indices count from the end.\<close>

definition py_index :: "nat \<Rightarrow> int \<Rightarrow> nat option" where
  "py_index n i =
     (if 0 \<le> i \<and> i < int n then Some (nat i)
      else if - int n \<le> i \<and> i < 0 then Some (nat (int n + i))
      else None)"

text \<open>\<open>a[y, x]\<close>.\<close>

definition np_get :: "'a list list \<Rightarrow> int \<Rightarrow> int \<Rightarrow> error + 'a" where
  "np_get a y x =
     (case py_index (length a) y of
        None \<Rightarrow> Inl IndexError
      | Some r \<Rightarrow>
          (case py_index (length (a ! r)) x of
             None \<Rightarrow> Inl IndexError
           | Some k \<Rightarrow> Inr (a ! r ! k)))"

text \<open>\<open>np.unique\<close>: the sorted distinct values.\<close>

definition np_unique :: "int list list \<Rightarrow> int list" where
  "np_unique a = sort (remdups (concat a))"

text \<open>\<open>a == iid\<close>, \<open>np.bitwise_and\<close>, \<open>np.bitwise_or\<close>, \<open>np.zeros_like(a).astype(bool)\<close>.\<close>

definition eq_mask :: "int list list \<Rightarrow> int \<Rightarrow> mask" where
  "eq_mask a iid = map (map (\<lambda>v. v = iid)) a"

definition bitwise_and :: "mask \<Rightarrow> mask \<Rightarrow> mask" where
  "bitwise_and m1 m2 = map2 (map2 (\<and>)) m1 m2"

definition bitwise_or :: "mask \<Rightarrow> mask \<Rightarrow> mask" where
  "bitwise_or m1 m2 = map2 (map2 (\<or>)) m1 m2"

definition zeros_like :: "'a list list \<Rightarrow> mask" where
  "zeros_like a = map (map (\<lambda>v. False)) a"

text \<open>\<open>sum(mask.flatten())\<close>.\<close>

definition num_pts :: "mask \<Rightarrow> nat" where
  "num_pts m = length (filter id (concat m))"

text \<open>\<open>np.argwhere(mask)\<close> and the mean of its rows: the centre (row, column).\<close>

definition argwhere :: "mask \<Rightarrow> (nat \<times> nat) list" where
  "argwhere m =
     concat (map (\<lambda>(r, row). map (\<lambda>k. (r, k)) (filter (\<lambda>k. row ! k) [0..<length row]))
               (enumerate 0 m))"

definition mean :: "real list \<Rightarrow> real" where
  "mean xs = sum_list xs / real (length xs)"

definition mask_center_of :: "mask \<Rightarrow> real \<times> real" where
  "mask_center_of m =
     (mean (map (\<lambda>p. real (fst p)) (argwhere m)), mean (map (\<lambda>p. real (snd p)) (argwhere m)))"

text \<open>\<open>depth[mask]\<close> and \<open>np.median\<close>.\<close>

definition masked_values :: "real list list \<Rightarrow> mask \<Rightarrow> real list" where
  "masked_values d m = map fst (filter snd (zip (concat d) (concat m)))"

definition np_median :: "real list \<Rightarrow> real" where
  "np_median xs =
     (let s = sort xs; n = length s
      in if even n then (s ! (n div 2 - 1) + s ! (n div 2)) / 2 else s ! (n div 2))"

text \<open>\<open>np.round\<close> rounds halves to the even neighbour.\<close>

definition np_round :: "real \<Rightarrow> int" where
  "np_round x =
     (let f = \<lfloor>x\<rfloor>
      in if x - of_int f < 1 / 2 then f
         else if 1 / 2 < x - of_int f then f + 1
         else if even f then f else f + 1)"

text \<open>\<open>a.shape[0]\<close> and \<open>a.shape[1]\<close>.\<close>

definition shape :: "'a list list \<Rightarrow> nat \<times> nat" where
  "shape a = (length a, case a of [] \<Rightarrow> 0 | row # _ \<Rightarrow> length row)"

subsection \<open>Data\<close>

text \<open>
  Modelled from the spec: the joint enumeration \<open>HelloStretchIdx\<close>
  (stretch.motion.kinematics) is not part of the sources; a joint state is indexed by
  the joints the spec lists.
\<close>

record joint_state =
  BASE_X :: real
  LIFT :: real
  ARM :: real
  WRIST_ROLL :: real
  WRIST_PITCH :: real
  WRIST_YAW :: real
  GRIPPER :: real

text \<open>The servo observation after \<open>semantic_sensor.predict\<close>.\<close>

record servo_observation =
  ee_rgb_shape :: "nat \<times> nat"
  ee_depth :: "real list list"
  semantic :: "int list list"
  instance_ids :: "int list list"

text \<open>The class attributes of \<open>GraspObjectOperation\<close>.\<close>

record grasp_config =
  lift_distance :: real
  show_servo_gui :: bool
  align_x_threshold :: int
  align_y_threshold :: int
  track_image_center :: bool
  min_points_to_approach :: nat
  detected_center_offset_y :: int
  lift_arm_ratio :: real
  base_x_step :: real
  wrist_pitch_step :: real
  median_distance_when_grasping :: real
  open_loop :: bool

definition default_config :: grasp_config where
  "default_config =
     \<lparr>lift_distance = 0.2, show_servo_gui = True, align_x_threshold = 15,
      align_y_threshold = 10, track_image_center = False, min_points_to_approach = 100,
      detected_center_offset_y = - 40, lift_arm_ratio = 0.1, base_x_step = 0.12,
      wrist_pitch_step = 0.1, median_distance_when_grasping = 0.175, open_loop = False\<rparr>"

text \<open>
  The collaborators that are plain functions: the class names of the segmentation
  sensor, the target object's name, and the kinematics (\<open>manip_fk\<close>,
  \<open>manip_ik_for_grasp_frame\<close>, \<open>point_global_to_base\<close>; none is part of the sources).
  The solver's answer is the joint state and the success flag the operation reads.
\<close>

record collaborators =
  class_name_for_id :: "int \<Rightarrow> string option"
  target_object :: string
  manip_fk :: "joint_state \<Rightarrow> point3 \<times> real list"
  manip_ik_for_grasp_frame :: "point3 \<Rightarrow> real list \<Rightarrow> joint_state \<Rightarrow> joint_state \<times> bool"
  point_global_to_base :: "point3 \<Rightarrow> real \<times> real \<times> real \<Rightarrow> point3"

text \<open>What \<open>grasp_open_loop\<close> reads from the robot.\<close>

record robot_reading =
  base_pose :: "real \<times> real \<times> real"
  arm_joint_state :: joint_state

text \<open>
  One iteration's inputs: the clock at the loop test, the servo observation (after
  segmentation), the joint state, the world-frame points, the detected marker centre
  (row, column), whether \<open>q\<close> was pressed in the GUI, the joint state \<open>_grasp\<close> reads
  after closing the gripper, and what an open-loop grasp would read.
\<close>

record frame =
  now :: real
  servo :: servo_observation
  joints :: joint_state
  world_xyz :: "point3 list list"
  detected_center :: "(real \<times> real) option"
  key_q :: bool
  joints_at_grasp :: joint_state
  reading :: robot_reading

text \<open>What the operation tells the robot.\<close>

datatype robot_call =
    ArmTo6 "real list" bool
  | ArmToState joint_state bool
  | CloseGripper bool

text \<open>The operation object: \<open>self._success\<close> and the commands issued so far.\<close>

record operation =
  success_flag :: bool
  calls :: "robot_call list"

text \<open>
  The local variables of \<open>visual_servo_to_object\<close> that outlive an iteration
  (\<open>prev_lift\<close> is only printed and is left out).
\<close>

record servo_locals =
  aligned_once :: bool
  prev_target_mask :: "mask option"
  success :: bool
  current_xyz :: "point3 option"
  failed_counter :: nat

definition servo_start :: servo_locals where
  "servo_start =
     \<lparr>aligned_once = False, prev_target_mask = None, success = False, current_xyz = None,
      failed_counter = 0\<rparr>"

text \<open>How one iteration ends; a returned value is \<open>True\<close>, \<open>False\<close> or Python's \<open>None\<close>.\<close>

datatype flow = Continue servo_locals | Break servo_locals | Return "bool option" | Raise error

datatype outcome = Returned "bool option" | Raised error

subsection \<open>Mask selection\<close>

text \<open>
  \<open>get_class_mask\<close>: the union of the pixels of every semantic id whose class name
  contains the target object's name (\<open>in\<close> on strings is the contiguous sublist).
  All masks of one frame, and the previous mask, have the shape of the image.
\<close>

definition get_class_mask :: "collaborators \<Rightarrow> servo_observation \<Rightarrow> mask" where
  "get_class_mask col sv =
     foldl (\<lambda>mask iid.
              case class_name_for_id col iid of
                None \<Rightarrow> mask
              | Some name \<Rightarrow>
                  if sublist (target_object col) name
                  then bitwise_or mask (eq_mask (semantic sv) iid) else mask)
       (zeros_like (semantic sv)) (np_unique (semantic sv))"

text \<open>
  The four accumulators of the loop in \<open>get_target_mask\<close>; \<open>None\<close> as a number of
  points is \<open>float("-inf")\<close>.
\<close>

record mask_search =
  target_mask :: "mask option"
  target_mask_pts :: "nat option"
  maximum_overlap_mask :: "mask option"
  maximum_overlap_pts :: "nat option"

definition search_start :: mask_search where
  "search_start =
     \<lparr>target_mask = None, target_mask_pts = None, maximum_overlap_mask = None,
      maximum_overlap_pts = None\<rparr>"

definition more_than :: "nat \<Rightarrow> nat option \<Rightarrow> bool" where
  "more_than n best = (case best of None \<Rightarrow> True | Some b \<Rightarrow> b < n)"

text \<open>\<open>class_mask[center_y, center_x] > 0 and current_instance_mask[center_y, center_x] > 0\<close>.\<close>

definition centered_on :: "mask \<Rightarrow> mask \<Rightarrow> int \<Rightarrow> int \<Rightarrow> error + bool" where
  "centered_on class_mask current_instance_mask center_y center_x =
     (case np_get class_mask center_y center_x of
        Inl e \<Rightarrow> Inl e
      | Inr in_class \<Rightarrow>
          if in_class then np_get current_instance_mask center_y center_x else Inr False)"

text \<open>
  The loop over the instance ids: \<open>Inr (Inl m)\<close> is the \<open>return\<close> from inside the
  loop, \<open>Inr (Inr acc)\<close> the accumulators when the loop ends.
\<close>

fun target_mask_loop ::
  "mask \<Rightarrow> int list list \<Rightarrow> int \<Rightarrow> int \<Rightarrow> mask option \<Rightarrow> int list \<Rightarrow> mask_search
     \<Rightarrow> error + (mask + mask_search)" where
  "target_mask_loop class_mask instance_mask center_x center_y prev_mask [] acc = Inr (Inr acc)"
| "target_mask_loop class_mask instance_mask center_x center_y prev_mask (iid # iids) acc =
     (let current_instance_mask = eq_mask instance_mask iid in
      case centered_on class_mask current_instance_mask center_y center_x of
        Inl e \<Rightarrow> Inl e
      | Inr hit \<Rightarrow>
          if hit then Inr (Inl current_instance_mask)
          else
            (let acc1 =
                   (case prev_mask of
                      None \<Rightarrow> acc
                    | Some pm \<Rightarrow>
                        (let mask = bitwise_and (bitwise_and current_instance_mask pm) class_mask;
                             n = num_pts mask
                         in if more_than n (maximum_overlap_pts acc)
                            then acc\<lparr>maximum_overlap_pts := Some n,
                                     maximum_overlap_mask := Some mask\<rparr>
                            else acc));
                 mask = bitwise_and current_instance_mask class_mask;
                 n = num_pts mask;
                 acc2 = (if more_than n (target_mask_pts acc1)
                         then acc1\<lparr>target_mask := Some mask, target_mask_pts := Some n\<rparr>
                         else acc1)
             in target_mask_loop class_mask instance_mask center_x center_y prev_mask iids acc2))"

definition select_mask :: "nat \<Rightarrow> mask option \<Rightarrow> mask_search \<Rightarrow> mask option" where
  "select_mask min_points prev_mask acc =
     (if (case maximum_overlap_pts acc of None \<Rightarrow> False | Some n \<Rightarrow> min_points < n)
      then maximum_overlap_mask acc
      else if target_mask acc \<noteq> None then target_mask acc
      else prev_mask)"

definition get_target_mask ::
  "grasp_config \<Rightarrow> collaborators \<Rightarrow> servo_observation \<Rightarrow> int \<times> int \<Rightarrow> mask option
     \<Rightarrow> error + mask option" where
  "get_target_mask cfg col sv center prev_mask =
     (let class_mask = get_class_mask col sv;
          instance_mask = instance_ids sv
      in case target_mask_loop class_mask instance_mask (fst center) (snd center) prev_mask
                (np_unique instance_mask) search_start of
           Inl e \<Rightarrow> Inl e
         | Inr (Inl m) \<Rightarrow> Inr (Some m)
         | Inr (Inr acc) \<Rightarrow> Inr (select_mask (min_points_to_approach cfg) prev_mask acc))"


subsection \<open>Grasping\<close>

text \<open>\<open>_grasp\<close>: close the gripper, read the joints, lift by 0.2; it returns \<open>True\<close>.\<close>

definition grasp :: "frame \<Rightarrow> operation \<Rightarrow> operation" where
  "grasp fr op =
     op\<lparr>calls := calls op @
           [CloseGripper True,
            ArmToState ((joints_at_grasp fr)\<lparr>LIFT := LIFT (joints_at_grasp fr) + 0.2\<rparr>) True]\<rparr>"

text \<open>\<open>grasp_open_loop\<close>: every path returns Python's \<open>None\<close>, so only the operation is returned.\<close>

definition grasp_open_loop ::
  "grasp_config \<Rightarrow> collaborators \<Rightarrow> robot_reading \<Rightarrow> point3 \<Rightarrow> operation \<Rightarrow> operation" where
  "grasp_open_loop cfg col rd object_xyz op =
     (let relative_object_xyz = point_global_to_base col object_xyz (base_pose rd);
          joint_state = arm_joint_state rd;
          ee_rot = snd (manip_fk col joint_state);
          solved = manip_ik_for_grasp_frame col relative_object_xyz ee_rot joint_state;
          target_joint_state = (fst solved)\<lparr>BASE_X := BASE_X (fst solved) - 0.04\<rparr>
      in if \<not> snd solved then op\<lparr>success_flag := False\<rparr>
         else if ARM target_joint_state < 0 \<or> LIFT target_joint_state < 0
              then op\<lparr>success_flag := False\<rparr>
         else
           (let target_joint_state_lifted =
                  target_joint_state\<lparr>LIFT := LIFT target_joint_state + lift_distance cfg\<rparr>
            in op\<lparr>calls := calls op @
                      [ArmToState target_joint_state True, CloseGripper True,
                       ArmToState target_joint_state_lifted False,
                       ArmToState joint_state True],
                   success_flag := True\<rparr>))"

definition was_successful :: "operation \<Rightarrow> bool" where
  "was_successful op = success_flag op"

subsection \<open>The servo loop\<close>

text \<open>The pixel the controller aims at, as (\<open>center_x\<close>, \<open>center_y\<close>).\<close>

definition image_center :: "servo_observation \<Rightarrow> int \<times> int" where
  "image_center sv = (int (snd (ee_rgb_shape sv)) div 2, int (fst (ee_rgb_shape sv)) div 2)"

definition aim_center :: "grasp_config \<Rightarrow> frame \<Rightarrow> int \<times> int" where
  "aim_center cfg fr =
     (if track_image_center cfg then image_center (servo fr)
      else case detected_center fr of
             Some c \<Rightarrow> (np_round (snd c), np_round (fst c) + detected_center_offset_y cfg)
           | None \<Rightarrow> image_center (servo fr))"

text \<open>The branch for an empty target mask.\<close>

definition servo_lost ::
  "grasp_config \<Rightarrow> collaborators \<Rightarrow> frame \<Rightarrow> servo_locals \<Rightarrow> operation \<Rightarrow> flow \<times> operation" where
  "servo_lost cfg col fr st op =
     (if \<not> aligned_once st then (Return (Some False), op)
      else if failed_counter st < 5 then (Continue (st\<lparr>failed_counter := failed_counter st + 1\<rparr>), op)
      else case current_xyz st of
             None \<Rightarrow> (Raise TypeError, op)
           | Some xyz \<Rightarrow> (Return None, grasp_open_loop cfg col (reading fr) xyz op))"

text \<open>
  The rest of the loop body once the mask has more than \<open>min_points_to_approach\<close>
  points.  With \<open>open_loop\<close> set the joint values were never bound and the first
  printout of them raises.
\<close>

definition servo_approach ::
  "grasp_config \<Rightarrow> frame \<Rightarrow> mask \<Rightarrow> real \<times> real \<Rightarrow> int \<times> int \<Rightarrow> real \<Rightarrow> servo_locals \<Rightarrow> operation
     \<Rightarrow> flow \<times> operation" where
  "servo_approach cfg fr tm mask_center center center_depth st op =
     (let base_x = BASE_X (joints fr);
          wrist_pitch = WRIST_PITCH (joints fr);
          arm = ARM (joints fr);
          lift = LIFT (joints fr);
          center_x = fst center;
          center_y = snd center;
          close = median_distance_when_grasping cfg;
          median_object_depth = np_median (masked_values (ee_depth (servo fr)) tm) / 1000;
          dx = snd mask_center - of_int center_x;
          dy = fst mask_center - of_int center_y
      in case np_get tm center_y center_x of
           Inl e \<Rightarrow> (Raise e, op)
         | Inr center_in_mask \<Rightarrow>
             (let st1 = st\<lparr>prev_target_mask := Some tm\<rparr> in
              if open_loop cfg then (Raise NameError, op)
              else if center_in_mask \<and> (center_depth < close \<or> median_object_depth < close)
              then (Break (st1\<lparr>success := True\<rparr>), grasp fr op)
              else if \<bar>dx\<bar> < of_int (align_x_threshold cfg) \<and> \<bar>dy\<bar> < of_int (align_y_threshold cfg)
              then
                (if center_depth < close then (Break (st1\<lparr>success := True\<rparr>), grasp fr op)
                 else
                   (Continue (st1\<lparr>aligned_once := True\<rparr>),
                    op\<lparr>calls := calls op @
                          [ArmTo6 [base_x, lift + sin wrist_pitch * lift_arm_ratio cfg,
                                   arm + cos wrist_pitch * lift_arm_ratio cfg, 0, wrist_pitch, 0]
                             True]\<rparr>))
              else
                (let px = max 0.25 \<bar>2 * dx / real (snd (shape tm))\<bar>;
                     py = max 0.25 \<bar>2 * dy / real (fst (shape tm))\<bar>;
                     base_x' = (if of_int (align_x_threshold cfg) < dx
                                then base_x + - base_x_step cfg * px
                                else if dx < - 1 * of_int (align_x_threshold cfg)
                                then base_x + base_x_step cfg * px else base_x);
                     wrist_pitch' = (if of_int (align_y_threshold cfg) < dy
                                     then wrist_pitch + - wrist_pitch_step cfg * py
                                     else if dy < - 1 * of_int (align_y_threshold cfg)
                                     then wrist_pitch + wrist_pitch_step cfg * py
                                     else wrist_pitch)
                 in (Continue (st1\<lparr>prev_target_mask := None\<rparr>),
                     op\<lparr>calls := calls op @
                           [ArmTo6 [base_x', lift, arm, 0, wrist_pitch', 0] True]\<rparr>))))"

text \<open>The branch for a non-empty target mask.\<close>

definition servo_track ::
  "grasp_config \<Rightarrow> frame \<Rightarrow> mask \<Rightarrow> int \<times> int \<Rightarrow> real \<Rightarrow> servo_locals \<Rightarrow> operation
     \<Rightarrow> flow \<times> operation" where
  "servo_track cfg fr tm center center_depth st op =
     (let mask_center = mask_center_of tm in
      if shape (world_xyz fr) \<noteq> shape (semantic (servo fr)) then (Raise AssertionError, op)
      else case np_get (world_xyz fr) \<lfloor>fst mask_center\<rfloor> \<lfloor>snd mask_center\<rfloor> of
             Inl e \<Rightarrow> (Raise e, op)
           | Inr xyz \<Rightarrow>
               (let st1 = st\<lparr>failed_counter := 0, current_xyz := Some xyz\<rparr> in
                if show_servo_gui cfg \<and> key_q fr then (Break st1, op)
                else if min_points_to_approach cfg < num_pts tm
                then servo_approach cfg fr tm mask_center center center_depth st1 op
                else if center_depth < median_distance_when_grasping cfg
                then (Continue (st1\<lparr>success := True\<rparr>), grasp fr op)
                else (Continue st1, op)))"

text \<open>One pass through the body of the \<open>while\<close> loop.\<close>

definition servo_iteration ::
  "grasp_config \<Rightarrow> collaborators \<Rightarrow> frame \<Rightarrow> servo_locals \<Rightarrow> operation \<Rightarrow> flow \<times> operation" where
  "servo_iteration cfg col fr st op =
     (let center = aim_center cfg fr in
      case get_target_mask cfg col (servo fr) center (prev_target_mask st) of
        Inl e \<Rightarrow> (Raise e, op)
      | Inr found \<Rightarrow>
          (case np_get (ee_depth (servo fr)) (snd center) (fst center) of
             Inl e \<Rightarrow> (Raise e, op)
           | Inr d \<Rightarrow>
               (let center_depth = d / 1000 in
                case found of
                  None \<Rightarrow> (Raise AttributeError, op)
                | Some tm \<Rightarrow>
                    if num_pts tm = 0 then servo_lost cfg col fr st op
                    else servo_track cfg fr tm center center_depth st op)))"

text \<open>
  The \<open>while\<close> loop over the frames the environment supplies; \<open>None\<close> when the
  frames run out while the loop is still going.
\<close>

fun servo_loop ::
  "grasp_config \<Rightarrow> collaborators \<Rightarrow> real \<Rightarrow> real \<Rightarrow> frame list \<Rightarrow> servo_locals \<Rightarrow> operation
     \<Rightarrow> (outcome \<times> operation) option" where
  "servo_loop cfg col t0 max_duration [] st op = None"
| "servo_loop cfg col t0 max_duration (fr # frs) st op =
     (if \<not> now fr - t0 < max_duration then Some (Returned (Some (success st)), op)
      else case servo_iteration cfg col fr st op of
             (Continue st', op') \<Rightarrow> servo_loop cfg col t0 max_duration frs st' op'
           | (Break st', op') \<Rightarrow> Some (Returned (Some (success st')), op')
           | (Return v, op') \<Rightarrow> Some (Returned v, op')
           | (Raise e, op') \<Rightarrow> Some (Raised e, op'))"

definition visual_servo_to_object ::
  "grasp_config \<Rightarrow> collaborators \<Rightarrow> real \<Rightarrow> real \<Rightarrow> frame list \<Rightarrow> operation
     \<Rightarrow> (outcome \<times> operation) option" where
  "visual_servo_to_object cfg col t0 max_duration frames op =
     servo_loop cfg col t0 max_duration frames servo_start op"

subsection \<open>Concrete inputs\<close>

text \<open>
  A sensor that knows class 7 as a cup, with a solver that answers a slightly negative
  arm extension and claims success; a two by two servo frame whose pixels all carry
  one semantic class and one depth (in millimetres); an operation that has done
  nothing yet.
\<close>

definition cup_sensor :: collaborators where
  "cup_sensor =
     \<lparr>class_name_for_id = (\<lambda>i. if i = 7 then Some ''cup'' else None),
      target_object = ''cup'',
      manip_fk = (\<lambda>q. ((0, 0, 0), [0, 0, 0, 1])),
      manip_ik_for_grasp_frame = (\<lambda>p r q. (q\<lparr>ARM := - 0.01\<rparr>, True)),
      point_global_to_base = (\<lambda>p b. p)\<rparr>"

definition rest_joints :: joint_state where
  "rest_joints =
     \<lparr>BASE_X = 0, LIFT = 0.5, ARM = 0.1, WRIST_ROLL = 0, WRIST_PITCH = 0, WRIST_YAW = 0,
      GRIPPER = 0\<rparr>"

definition frame_of :: "int \<Rightarrow> real \<Rightarrow> frame" where
  "frame_of sem depth =
     \<lparr>now = 1,
      servo = \<lparr>ee_rgb_shape = (2, 2), ee_depth = [[depth, depth], [depth, depth]],
               semantic = [[sem, sem], [sem, sem]], instance_ids = [[1, 1], [1, 1]]\<rparr>,
      joints = rest_joints,
      world_xyz = [[(1, 0, 0), (1, 0, 0)], [(1, 0, 0), (1, 0, 0)]],
      detected_center = None, key_q = False, joints_at_grasp = rest_joints,
      reading = \<lparr>base_pose = (0, 0, 0), arm_joint_state = rest_joints\<rparr>\<rparr>"

definition idle :: operation where
  "idle = \<lparr>success_flag = False, calls = []\<rparr>"

subsection \<open>Notions used to state the properties\<close>

text \<open>An iteration in which mask selection answers an empty mask and the depth at the aim pixel can be read.\<close>

definition sees_nothing :: "grasp_config \<Rightarrow> collaborators \<Rightarrow> frame \<Rightarrow> mask option \<Rightarrow> bool" where
  "sees_nothing cfg col fr prev_mask =
     (case get_target_mask cfg col (servo fr) (aim_center cfg fr) prev_mask of
        Inr (Some tm) \<Rightarrow>
          num_pts tm = 0 \<and>
          \<not> isl (np_get (ee_depth (servo fr)) (snd (aim_center cfg fr)) (fst (aim_center cfg fr)))
      | _ \<Rightarrow> False)"

text \<open>
  \<open>r\<close> is a largest of the masks \<open>f i\<close> for the ids \<open>i\<close>; and the invariant of the search
  loop: \<open>best\<close> with its count \<open>pts\<close> is a largest mask among the ids seen so far.
\<close>

definition largest :: "(int \<Rightarrow> mask) \<Rightarrow> int list \<Rightarrow> mask option \<Rightarrow> bool" where
  "largest f ids r = (\<exists>i \<in> set ids. r = Some (f i) \<and> (\<forall>j \<in> set ids. num_pts (f j) \<le> num_pts (f i)))"

definition tracked :: "(int \<Rightarrow> mask) \<Rightarrow> int list \<Rightarrow> mask option \<Rightarrow> nat option \<Rightarrow> bool" where
  "tracked f seen best pts =
     (if seen = [] then best = None \<and> pts = None
      else largest f seen best \<and> pts = map_option num_pts best)"

section \<open>Properties of the transport client\<close>

subsection \<open>What a poll, a publication and a sleep leave unchanged\<close>

lemma spin_once_frame [simp]:
  "sent (spin_once c ob) = sent c" "next_action (spin_once c ob) = next_action c"
  "finish (spin_once c ob) = finish c" "feed (spin_once c ob) = feed c"
  by (simp_all add: spin_once_def update_obs_def Let_def)

lemma foldl_spin_frame [simp]:
  "sent (foldl spin_once c fs) = sent c" "next_action (foldl spin_once c fs) = next_action c"
  "finish (foldl spin_once c fs) = finish c" "feed (foldl spin_once c fs) = feed c"
  by (induction fs arbitrary: c) simp_all

lemma recv_frame [simp]:
  "sent (recv c) = sent c" "next_action (recv c) = next_action c" "finish (recv c) = finish c"
  by (simp_all add: recv_def split: list.splits)

lemma poll_obs_frame [simp]:
  "sent (snd (snd (poll_obs ad a w c))) = sent c"
  "next_action (snd (snd (poll_obs ad a w c))) = next_action c"
  "finish (snd (snd (poll_obs ad a w c))) = finish c"
  "iter (snd (snd (poll_obs ad a w c))) = iter c"
  by (simp_all add: poll_obs_def Let_def split: option.splits)

lemma sleep_frame [simp]:
  "sent (sleep d c) = sent c" "next_action (sleep d c) = next_action c"
  "finish (sleep d c) = finish c" "iter (sleep d c) = iter c" "obs (sleep d c) = obs c"
  "last_step (sleep d c) = last_step c" "seq_id (sleep d c) = seq_id c"
  by (simp_all add: sleep_def)

lemma state_of_simps [simp]: "state_of (Inl (e, c)) = c" "state_of (Inr c) = c"
  by (simp_all add: state_of_def)

lemma wait_loop_unfold:
  "wait_loop ad a t0 w c =
     (if fst (poll_obs ad a w (recv c)) then Inr (snd (poll_obs ad a w (recv c)))
      else if timeout a < clock c + 0.01 - t0
           then Inl (Timeout, sleep 0.01 (snd (snd (poll_obs ad a w (recv c)))))
           else wait_loop ad a t0 (fst (snd (poll_obs ad a w (recv c))))
                  (sleep 0.01 (snd (snd (poll_obs ad a w (recv c))))))"
  by (subst wait_loop.simps) (simp add: Let_def)

lemma wait_loop_sent:
  "sent (wstate (wait_loop ad a t0 w c)) = sent c \<and>
   next_action (wstate (wait_loop ad a t0 w c)) = next_action c"
proof (induction ad a t0 w c rule: wait_loop.induct)
  case (1 ad a t0 w c)
  show ?case
  proof (cases "fst (poll_obs ad a w (recv c)) \<or> timeout a < clock c + 0.01 - t0")
    case True
    then show ?thesis
      by (subst (1 2) wait_loop_unfold) (auto simp: wstate_def)
  next
    case False
    with 1 [OF refl _ refl] show ?thesis
      by (subst (1 2) wait_loop_unfold) simp
  qed
qed

lemma state_of_wait:
  "state_of (case R of Inl e \<Rightarrow> Inl e | Inr r \<Rightarrow> Inr (snd r)) = wstate R"
  by (cases R) (simp_all add: state_of_def wstate_def)

lemma wait_for_action_sent:
  "sent (state_of (wait_for_action ad bid tmo mth ath ms ga c)) = sent c"
  "next_action (state_of (wait_for_action ad bid tmo mth ath ms ga c)) = next_action c"
  by (simp_all add: wait_for_action_def Let_def state_of_wait wait_loop_sent)

lemma state_of_then_sleep:
  "sent (state_of (case R of Inl e \<Rightarrow> Inl e | Inr c3 \<Rightarrow> Inr (sleep d c3))) = sent (state_of R)"
  "next_action (state_of (case R of Inl e \<Rightarrow> Inl e | Inr c3 \<Rightarrow> Inr (sleep d c3)))
     = next_action (state_of R)"
  by (cases R; simp add: state_of_def)+

lemma send_action_sent:
  "sent (state_of (send_action ad tmo c)) = sent c @ [(next_action c)\<lparr>step := Some (iter c)\<rparr>]"
  by (cases "goal_angle_of ((next_action c)\<lparr>step := Some (iter c)\<rparr>)")
     (simp_all add: send_action_def Let_def state_of_then_sleep wait_for_action_sent)

subsection \<open>Joint vectors on the wire\<close>

text \<open>
  C9.  Whatever joint vector \<open>arm_to\<close> is given, a command it puts on the wire carries
  exactly six joint values.  A vector shorter than six raises \<open>ValueError\<close> with the
  client untouched, so nothing is sent.  A vector of exactly six is sent as it is.  A
  vector longer than six is never sent raw: it goes through the conversion
  \<open>config_to_manip_command\<close>, the converted vector is sent when it has six elements,
  and otherwise the call raises with the client untouched.
\<close>

theorem arm_to_sends_six:
  "(length q < 6 \<longrightarrow> arm_to ad cmc q b c = Inl (ValueError, c)) \<and>
   (length q = 6 \<longrightarrow>
      sent (state_of (arm_to ad cmc q b c)) =
        sent c @ [(next_action c)\<lparr>joint := Some q, manip_blocking := Some b,
                                    step := Some (iter c)\<rparr>]) \<and>
   (6 < length q \<longrightarrow>
      (if length (cmc q) = 6
       then sent (state_of (arm_to ad cmc q b c)) =
              sent c @ [(next_action c)\<lparr>joint := Some (cmc q), manip_blocking := Some b,
                                          step := Some (iter c)\<rparr>]
       else arm_to ad cmc q b c =
              Inl (if length (cmc q) < 6 then ValueError else AssertionError, c)))"
  by (simp add: arm_to_def Let_def send_action_sent)

theorem arm_to_sends_six_witness:
  "length [1, 2, 3, 4, 5, 6, 7 :: real] = 7 \<and>
   sent (state_of (arm_to (\<lambda>x y. x - y) (take 6) [1, 2, 3, 4, 5, 6, 7] True
                     (init_client 0.1 0.1 1 []))) =
     [empty_action\<lparr>joint := Some [1, 2, 3, 4, 5, 6], manip_blocking := Some True,
                    step := Some 0\<rparr>] \<and>
   arm_to (\<lambda>x y. x - y) (take 6) [1, 2, 3] True (init_client 0.1 0.1 1 []) =
     Inl (ValueError, init_client 0.1 0.1 1 []) \<and>
   sent (state_of (arm_to (\<lambda>x y. x - y) (take 6) [1, 2, 3, 4, 5, 6] False
                     (init_client 0.1 0.1 1 []))) =
     [empty_action\<lparr>joint := Some [1, 2, 3, 4, 5, 6], manip_blocking := Some False,
                    step := Some 0\<rparr>]"
  using arm_to_sends_six [of "[1, 2, 3, 4, 5, 6, 7]" "\<lambda>x y. x - y" "take 6" True
          "init_client 0.1 0.1 1 []"]
        arm_to_sends_six [of "[1, 2, 3]" "\<lambda>x y. x - y" "take 6" True "init_client 0.1 0.1 1 []"]
        arm_to_sends_six [of "[1, 2, 3, 4, 5, 6]" "\<lambda>x y. x - y" "take 6" False
          "init_client 0.1 0.1 1 []"]
  by (simp add: init_client_def)

subsection \<open>The convergence wait\<close>

lemma poll_obs_done_iff:
  "fst (poll_obs ad a w c) \<longleftrightarrow>
     (\<exists>ob. obs c = Some ob \<and> block_id a \<le> last_step c \<and> at_goal ob \<and>
           w_min_steps_not_moving a < not_moving_count (fst (snd (poll_obs ad a w c))))"
  by (cases "obs c") (auto simp: poll_obs_def Let_def)

lemma poll_obs_done_state:
  "fst (poll_obs ad a w c) \<Longrightarrow> snd (snd (poll_obs ad a w c)) = c"
  by (cases "obs c") (auto simp: poll_obs_def Let_def split: if_splits)

lemma poll_obs_not_done:
  "\<not> fst (poll_obs ad a w c) \<Longrightarrow> obs (snd (snd (poll_obs ad a w c))) = None"
  by (cases "obs c") (auto simp: poll_obs_def Let_def split: if_splits)

lemma wait_loop_exit:
  "case wait_loop ad a t0 w c of
     Inl x \<Rightarrow> fst x = Timeout \<and> timeout a < clock (snd x) - t0 \<and> obs (snd x) = None
   | Inr x \<Rightarrow> (\<exists>ob. obs (snd x) = Some ob \<and> at_goal ob) \<and> block_id a \<le> last_step (snd x) \<and>
             w_min_steps_not_moving a < not_moving_count (fst x)"
proof (induction ad a t0 w c rule: wait_loop.induct)
  case (1 ad a t0 w c)
  let ?r = "poll_obs ad a w (recv c)"
  show ?case
  proof (cases "fst ?r")
    case True
    then have "wait_loop ad a t0 w c = Inr (snd ?r)"
      by (subst wait_loop_unfold) simp
    moreover from True have "snd (snd ?r) = recv c"
      by (rule poll_obs_done_state)
    moreover from True obtain ob where "obs (recv c) = Some ob" "block_id a \<le> last_step (recv c)"
      "at_goal ob" "w_min_steps_not_moving a < not_moving_count (fst (snd ?r))"
      using poll_obs_done_iff [where ad = ad and a = a and w = w and c = "recv c"] by blast
    ultimately show ?thesis by simp
  next
    case False
    show ?thesis
    proof (cases "timeout a < clock c + 0.01 - t0")
      case True
      with False have "wait_loop ad a t0 w c = Inl (Timeout, sleep 0.01 (snd (snd ?r)))"
        by (subst wait_loop_unfold) simp
      with True False show ?thesis
        by (simp add: poll_obs_not_done)
    next
      case notyet: False
      with False have "wait_loop ad a t0 w c
          = wait_loop ad a t0 (fst (snd ?r)) (sleep 0.01 (snd (snd ?r)))"
        by (subst wait_loop_unfold) simp
      moreover have "case wait_loop ad a t0 (fst (snd ?r)) (sleep 0.01 (snd (snd ?r))) of
           Inl x \<Rightarrow> fst x = Timeout \<and> timeout a < clock (snd x) - t0 \<and> obs (snd x) = None
         | Inr x \<Rightarrow> (\<exists>ob. obs (snd x) = Some ob \<and> at_goal ob) \<and> block_id a \<le> last_step (snd x) \<and>
             w_min_steps_not_moving a < not_moving_count (fst x)"
        using False notyet by (intro 1 [OF refl _ refl]) simp_all
      ultimately show ?thesis by simp
    qed
  qed
qed








subsection \<open>The observation slot after a wait\<close>

lemma wait_for_action_returns:
  assumes "wait_for_action ad bid tmo mth ath ms ga c = Inr c'"
  shows "(\<exists>ob. obs c' = Some ob \<and> at_goal ob) \<and> bid \<le> last_step c'"
proof -
  define a where "a = \<lparr>block_id = bid, timeout = tmo,
                w_moving_threshold = (case mth of None \<Rightarrow> moving_threshold c | Some v \<Rightarrow> v),
                w_angle_threshold = (case ath of None \<Rightarrow> angle_threshold c | Some v \<Rightarrow> v),
                w_min_steps_not_moving =
                  (case ms of None \<Rightarrow> min_steps_not_moving c | Some v \<Rightarrow> v)\<rparr>"
  from assms obtain r where "wait_loop ad a (clock c) wait_start c = Inr r" and "c' = snd r"
    by (auto simp: wait_for_action_def Let_def a_def split: sum.splits)
  with wait_loop_exit [where ad = ad and a = a and ?t0.0 = "clock c" and w = wait_start and c = c]
  show ?thesis by (simp add: a_def)
qed

lemma wait_for_action_raises:
  assumes "wait_for_action ad bid tmo mth ath ms ga c = Inl (e, c')"
  shows "e = Timeout \<and> tmo < clock c' - clock c \<and> obs c' = None"
proof -
  define a where "a = \<lparr>block_id = bid, timeout = tmo,
                w_moving_threshold = (case mth of None \<Rightarrow> moving_threshold c | Some v \<Rightarrow> v),
                w_angle_threshold = (case ath of None \<Rightarrow> angle_threshold c | Some v \<Rightarrow> v),
                w_min_steps_not_moving =
                  (case ms of None \<Rightarrow> min_steps_not_moving c | Some v \<Rightarrow> v)\<rparr>"
  from assms have "wait_loop ad a (clock c) wait_start c = Inl (e, c')"
    by (auto simp: wait_for_action_def Let_def a_def split: sum.splits)
  with wait_loop_exit [where ad = ad and a = a and ?t0.0 = "clock c" and w = wait_start and c = c]
  show ?thesis by (simp add: a_def)
qed

lemma navigate_to_blocking:
  "navigate_to ad pose relative True tmo c =
     (if length pose \<noteq> 3 then Inl (AssertionError, c)
      else case wait_for_action ad (iter c) tmo None None (Some 1) (Some (pose ! 2))
                  (sleep 0.2 (c\<lparr>iter := iter c + 1,
                      sent := sent c @ [(next_action c)\<lparr>xyt := Some pose, nav_relative := Some relative,
                                   nav_blocking := Some True, step := Some (iter c)\<rparr>],
                      next_action := empty_action\<rparr>)) of
             Inl e \<Rightarrow> Inl e
           | Inr c3 \<Rightarrow> Inr (sleep 0.2 c3))"
  by (simp add: navigate_to_def send_action_def goal_angle_of_def Let_def)

lemma navigate_to_blocking_returns:
  assumes "navigate_to ad pose relative True tmo c = Inr c'"
  shows "(\<exists>ob. obs c' = Some ob \<and> at_goal ob) \<and> iter c \<le> last_step c'"
proof -
  from assms obtain c3 where
    "wait_for_action ad (iter c) tmo None None (Some 1) (Some (pose ! 2))
       (sleep 0.2 (c\<lparr>iter := iter c + 1,
           sent := sent c @ [(next_action c)\<lparr>xyt := Some pose, nav_relative := Some relative,
                        nav_blocking := Some True, step := Some (iter c)\<rparr>],
           next_action := empty_action\<rparr>)) = Inr c3" and "c' = sleep 0.2 c3"
    by (auto simp: navigate_to_blocking split: if_splits sum.splits)
  then show ?thesis
    using wait_for_action_returns by fastforce
qed

text \<open>
  C10 (as amended).  A poll of the convergence wait that does not complete it leaves
  the latest-observation slot empty, and so does a wait that raises the timeout
  error.  A wait that returns leaves in the slot the observation that met the
  completion condition, so \<open>get_observation\<close> right after a blocking \<open>navigate_to\<close>
  has returned is never absent.
\<close>

theorem wait_consumes_observations:
  "(\<not> fst (poll_obs ad a w c) \<longrightarrow> obs (snd (snd (poll_obs ad a w c))) = None) \<and>
   (\<forall>e c'. wait_for_action ad bid tmo mth ath ms ga c = Inl (e, c') \<longrightarrow> get_observation c' = None) \<and>
   (\<forall>c'. wait_for_action ad bid tmo mth ath ms ga c = Inr c' \<longrightarrow> get_observation c' \<noteq> None) \<and>
   (\<forall>c'. navigate_to ad pose relative True tmo c = Inr c' \<longrightarrow> get_observation c' \<noteq> None)"
  using poll_obs_not_done [where ad = ad and a = a and w = w and c = c]
    wait_for_action_raises [where ad = ad and c = c]
    wait_for_action_returns [where ad = ad and c = c]
    navigate_to_blocking_returns [where ad = ad and c = c]
  by (fastforce simp: get_observation_def)


text \<open>A blocking command that returns, and the observation it leaves.\<close>

theorem wait_consumes_observations_witness:
  "(\<exists>c'. navigate_to (\<lambda>x y. \<bar>x - y\<bar>) [1, 2, 0.5] False True 10
           (init_client 0.1 0.1 1
              (replicate 3 [\<lparr>gps = (1, 2), compass = 0.5, at_goal = True, obs_step = 0,
                               obs_control_mode = ''navigation''\<rparr>])) = Inr c') \<and>
   get_observation (state_of (navigate_to (\<lambda>x y. \<bar>x - y\<bar>) [1, 2, 0.5] False True 10
           (init_client 0.1 0.1 1
              (replicate 3 [\<lparr>gps = (1, 2), compass = 0.5, at_goal = True, obs_step = 0,
                               obs_control_mode = ''navigation''\<rparr>])))) \<noteq> None"
proof -
  let ?ad = "\<lambda>x y :: real. \<bar>x - y\<bar>"
  let ?c = "init_client 0.1 0.1 1
              (replicate 3 [\<lparr>gps = (1, 2), compass = 0.5, at_goal = True, obs_step = 0,
                               obs_control_mode = ''navigation''\<rparr>])"
  have "\<exists>c'. navigate_to ?ad [1, 2, 0.5] False True 10 ?c = Inr c'"
    by (simp add: navigate_to_def send_action_def goal_angle_of_def wait_for_action_def
        wait_loop_unfold poll_obs_def recv_def spin_once_def update_obs_def Let_def
        init_client_def wait_start_def norm2_def sleep_def empty_action_def numeral_3_eq_3)
  then obtain c' where r: "navigate_to ?ad [1, 2, 0.5] False True 10 ?c = Inr c'" ..
  with wait_consumes_observations [where ad = ?ad and c = ?c and pose = "[1, 2, 0.5]"
      and relative = False and tmo = 10]
  have "get_observation c' \<noteq> None" by blast
  with r show ?thesis by simp
qed

text \<open>
  After this blocking \<open>navigate_to\<close> has returned, the receive thread has nothing
  left to publish and \<open>get_observation\<close> returns the third frame.
\<close>

theorem wait_leaves_observation_counterexample:
  "let ob = \<lparr>gps = (1, 2), compass = 0.5, at_goal = True, obs_step = 0,
             obs_control_mode = ''navigation''\<rparr>
   in case navigate_to (\<lambda>x y. \<bar>x - y\<bar>) [1, 2, 0.5] False True 10
             (init_client 0.1 0.1 1 [[ob], [ob], [ob]]) of
        Inl x \<Rightarrow> False
      | Inr c' \<Rightarrow> feed c' = [] \<and> get_observation c' = Some (ob, 3)"
  by (simp add: navigate_to_def send_action_def goal_angle_of_def wait_for_action_def
      wait_loop_unfold poll_obs_def recv_def spin_once_def update_obs_def Let_def
      init_client_def wait_start_def norm2_def sleep_def empty_action_def get_observation_def)

subsection \<open>Commands: send, clear, and wait\<close>

lemma spin_once_iter: "0 < iter c \<Longrightarrow> iter (spin_once c ob) = iter c"
  by (simp add: spin_once_def update_obs_def Let_def)

lemma foldl_spin_iter: "0 < iter c \<Longrightarrow> iter (foldl spin_once c fs) = iter c"
  by (induction fs arbitrary: c) (simp_all add: spin_once_iter)

lemma recv_iter: "0 < iter c \<Longrightarrow> iter (recv c) = iter c"
  by (simp add: recv_def foldl_spin_iter split: list.splits)

lemma wait_loop_iter:
  "0 < iter c \<Longrightarrow> iter (wstate (wait_loop ad a t0 w c)) = iter c"
proof (induction ad a t0 w c rule: wait_loop.induct)
  case (1 ad a t0 w c)
  show ?case
  proof (cases "fst (poll_obs ad a w (recv c)) \<or> timeout a < clock c + 0.01 - t0")
    case True
    with "1.prems" show ?thesis
      by (subst wait_loop_unfold) (auto simp: wstate_def recv_iter)
  next
    case False
    with "1.prems" 1(1) [OF refl _ refl] show ?thesis
      by (subst wait_loop_unfold) (simp add: recv_iter)
  qed
qed

lemma wait_for_action_iter:
  "0 < iter c \<Longrightarrow> iter (state_of (wait_for_action ad bid tmo mth ath ms ga c)) = iter c"
  by (simp add: wait_for_action_def Let_def state_of_wait wait_loop_iter)

lemma state_of_then_sleep_iter:
  "iter (state_of (case R of Inl e \<Rightarrow> Inl e | Inr c3 \<Rightarrow> Inr (sleep d c3))) = iter (state_of R)"
  by (cases R; simp add: state_of_def)

lemma send_action_effect:
  assumes "goal_angle_of (next_action c) \<noteq> Inl IndexError"
  shows "sent (state_of (send_action ad tmo c)) = sent c @ [(next_action c)\<lparr>step := Some (iter c)\<rparr>]"
    and "next_action (state_of (send_action ad tmo c)) = empty_action"
    and "0 \<le> iter c \<Longrightarrow> iter (state_of (send_action ad tmo c)) = iter c + 1"
proof -
  from assms obtain g where g: "goal_angle_of ((next_action c)\<lparr>step := Some (iter c)\<rparr>) = Inr g"
    by (auto simp: goal_angle_of_def split: option.splits if_splits)
  show "sent (state_of (send_action ad tmo c)) = sent c @ [(next_action c)\<lparr>step := Some (iter c)\<rparr>]"
    by (rule send_action_sent)
  show "next_action (state_of (send_action ad tmo c)) = empty_action"
    using g by (simp add: send_action_def Let_def state_of_then_sleep wait_for_action_sent)
  show "iter (state_of (send_action ad tmo c)) = iter c + 1" if "0 \<le> iter c"
    using g that
    by (simp add: send_action_def Let_def state_of_then_sleep_iter wait_for_action_iter)
qed


lemma navigate_to_raises:
  assumes "navigate_to ad pose relative True tmo c = Inl (e, c')" and "length pose = 3"
  shows "e = Timeout \<and> tmo < clock c' - (clock c + 0.2)"
proof -
  let ?c2 = "sleep 0.2 (c\<lparr>iter := iter c + 1,
           sent := sent c @ [(next_action c)\<lparr>xyt := Some pose, nav_relative := Some relative,
                        nav_blocking := Some True, step := Some (iter c)\<rparr>],
           next_action := empty_action\<rparr>)"
  from assms have "wait_for_action ad (iter c) tmo None None (Some 1) (Some (pose ! 2)) ?c2
      = Inl (e, c')"
    by (auto simp: navigate_to_blocking split: sum.splits)
  from wait_for_action_raises [OF this] show ?thesis by simp
qed

lemma gripper_to_no_wait:
  assumes "next_action c = empty_action"
  shows "gripper_to ad g b c =
           Inr ((if b then sleep 2 else id)
                  (sleep 0.2 (c\<lparr>iter := iter c + 1,
                      sent := sent c @ [empty_action\<lparr>gripper := Some g, gripper_blocking := Some b,
                                                     step := Some (iter c)\<rparr>],
                      next_action := empty_action\<rparr>)))"
  using assms
  by (simp add: gripper_to_def send_action_def goal_angle_of_def empty_action_def Let_def)

lemma arm_to_no_wait:
  assumes "next_action c = empty_action" and "length q = 6"
  shows "arm_to ad cmc q b c =
           Inr (sleep 0.2 (c\<lparr>iter := iter c + 1,
                  sent := sent c @ [empty_action\<lparr>joint := Some q, manip_blocking := Some b,
                                                 step := Some (iter c)\<rparr>],
                  next_action := empty_action\<rparr>))"
  using assms
  by (simp add: arm_to_def send_action_def goal_angle_of_def empty_action_def Let_def)

lemma navigate_to_nonblocking:
  "length pose = 3 \<Longrightarrow>
   navigate_to ad pose relative False tmo c =
     Inr (sleep 0.2 (c\<lparr>iter := iter c + 1,
            sent := sent c @ [(next_action c)\<lparr>xyt := Some pose, nav_relative := Some relative,
                                nav_blocking := Some False, step := Some (iter c)\<rparr>],
            next_action := empty_action\<rparr>))"
  by (simp add: navigate_to_def send_action_def goal_angle_of_def Let_def)

text \<open>
  C1 (as amended).  From a client whose pending action is empty, each of \<open>arm_to\<close>,
  \<open>navigate_to\<close> and \<open>gripper_to\<close> sets its own fields in the pending action (in the
  source under the action lock: the locked region is one atomic step here) and puts
  exactly one record on the wire: the command's fields and the current step counter
  as step id; it leaves the pending action empty.  The send adds one to the counter,
  and the counter is one higher after \<open>arm_to\<close>, after \<open>gripper_to\<close> and after a
  \<open>navigate_to\<close> that is not blocking; after a blocking \<open>navigate_to\<close> it is one
  higher when it was not negative before, since the receive loop, which runs during
  the wait, overwrites a counter that is zero or negative with the server's last
  completed step and leaves a positive counter alone.  A \<open>navigate_to\<close> with \<open>blocking=True\<close> returns only once the
  convergence wait has completed (an observation with \<open>at_goal\<close> set, last completed
  step at least the sent id), and otherwise raises the timeout error more than
  \<open>timeout\<close> after the wait began.  A \<open>gripper_to\<close> with \<open>blocking=True\<close> runs no
  convergence wait: it returns after a fixed pause of two seconds.
\<close>

theorem commands_send_then_clear:
  assumes "next_action c = empty_action"
  shows
   "(length q = 6 \<longrightarrow>
       sent (state_of (arm_to ad cmc q b c)) =
         sent c @ [empty_action\<lparr>joint := Some q, manip_blocking := Some b,
                                 step := Some (iter c)\<rparr>] \<and>
       next_action (state_of (arm_to ad cmc q b c)) = empty_action \<and>
       iter (state_of (arm_to ad cmc q b c)) = iter c + 1) \<and>
    (length pose = 3 \<longrightarrow>
       sent (state_of (navigate_to ad pose relative b tmo c)) =
         sent c @ [empty_action\<lparr>xyt := Some pose, nav_relative := Some relative,
                                 nav_blocking := Some b, step := Some (iter c)\<rparr>] \<and>
       next_action (state_of (navigate_to ad pose relative b tmo c)) = empty_action \<and>
       (\<not> b \<or> 0 \<le> iter c \<longrightarrow>
          iter (state_of (navigate_to ad pose relative b tmo c)) = iter c + 1)) \<and>
    (sent (state_of (gripper_to ad g b c)) =
         sent c @ [empty_action\<lparr>gripper := Some g, gripper_blocking := Some b,
                                 step := Some (iter c)\<rparr>] \<and>
       next_action (state_of (gripper_to ad g b c)) = empty_action \<and>
       iter (state_of (gripper_to ad g b c)) = iter c + 1) \<and>
    (\<forall>c'. navigate_to ad pose relative True tmo c = Inr c' \<longrightarrow>
          (\<exists>ob. obs c' = Some ob \<and> at_goal ob) \<and> iter c \<le> last_step c') \<and>
    (\<forall>e c'. length pose = 3 \<and> navigate_to ad pose relative True tmo c = Inl (e, c') \<longrightarrow>
          e = Timeout \<and> tmo < clock c' - (clock c + 0.2)) \<and>
    gripper_to ad g True c =
      Inr (sleep 2 (sleep 0.2 (c\<lparr>iter := iter c + 1,
             sent := sent c @ [empty_action\<lparr>gripper := Some g, gripper_blocking := Some True,
                                            step := Some (iter c)\<rparr>],
             next_action := empty_action\<rparr>))) \<and>
    iter (update_obs ob c) = (if iter c \<le> 0 then obs_step ob else iter c) \<and>
    (0 < iter c \<longrightarrow> iter (recv c) = iter c)"
proof -
  have arm: "length q = 6 \<longrightarrow>
       sent (state_of (arm_to ad cmc q b c)) =
         sent c @ [empty_action\<lparr>joint := Some q, manip_blocking := Some b,
                                 step := Some (iter c)\<rparr>] \<and>
       next_action (state_of (arm_to ad cmc q b c)) = empty_action \<and>
       iter (state_of (arm_to ad cmc q b c)) = iter c + 1"
    using assms by (simp add: arm_to_no_wait)
  have nav_wire: "length pose = 3 \<longrightarrow>
       sent (state_of (navigate_to ad pose relative b tmo c)) =
         sent c @ [empty_action\<lparr>xyt := Some pose, nav_relative := Some relative,
                                 nav_blocking := Some b, step := Some (iter c)\<rparr>] \<and>
       next_action (state_of (navigate_to ad pose relative b tmo c)) = empty_action"
    using assms
    by (simp add: navigate_to_def Let_def send_action_effect goal_angle_of_def empty_action_def)
  have nav_iter: "iter (state_of (navigate_to ad pose relative b tmo c)) = iter c + 1"
    if "length pose = 3" and "\<not> b \<or> 0 \<le> iter c"
  proof (cases b)
    case False
    with that(1) show ?thesis
      by (simp add: navigate_to_nonblocking)
  next
    case True
    with that have "0 \<le> iter c" by simp
    with that(1) assms show ?thesis
      by (simp add: navigate_to_def Let_def send_action_effect goal_angle_of_def
          empty_action_def)
  qed
  have grip: "sent (state_of (gripper_to ad g b c)) =
         sent c @ [empty_action\<lparr>gripper := Some g, gripper_blocking := Some b,
                                 step := Some (iter c)\<rparr>] \<and>
       next_action (state_of (gripper_to ad g b c)) = empty_action \<and>
       iter (state_of (gripper_to ad g b c)) = iter c + 1"
    using assms by (simp add: gripper_to_no_wait)
  have ret: "\<forall>c'. navigate_to ad pose relative True tmo c = Inr c' \<longrightarrow>
          (\<exists>ob. obs c' = Some ob \<and> at_goal ob) \<and> iter c \<le> last_step c'"
    using navigate_to_blocking_returns by blast
  have raise: "\<forall>e c'. length pose = 3 \<and> navigate_to ad pose relative True tmo c = Inl (e, c') \<longrightarrow>
          e = Timeout \<and> tmo < clock c' - (clock c + 0.2)"
    using navigate_to_raises by blast
  have pause: "gripper_to ad g True c =
      Inr (sleep 2 (sleep 0.2 (c\<lparr>iter := iter c + 1,
             sent := sent c @ [empty_action\<lparr>gripper := Some g, gripper_blocking := Some True,
                                            step := Some (iter c)\<rparr>],
             next_action := empty_action\<rparr>)))"
    using assms by (simp add: gripper_to_no_wait)
  have reset: "iter (update_obs ob c) = (if iter c \<le> 0 then obs_step ob else iter c)"
    by (simp add: update_obs_def Let_def)
  have keep: "0 < iter c \<longrightarrow> iter (recv c) = iter c"
    by (simp add: recv_iter)
  from arm nav_wire nav_iter grip ret raise pause reset keep show ?thesis by blast
qed

text \<open>
  The first command of a fresh client, and a command of a client whose counter the
  receive loop has set to \<open>-1\<close>.
\<close>

theorem commands_send_then_clear_witness:
  "next_action (init_client 0.1 0.1 1 []) = empty_action \<and> 0 \<le> iter (init_client 0.1 0.1 1 []) \<and>
   sent (state_of (navigate_to (\<lambda>x y. \<bar>x - y\<bar>) [1, 2, 0.5] False True 10
                     (init_client 0.1 0.1 1 []))) =
     [empty_action\<lparr>xyt := Some [1, 2, 0.5], nav_relative := Some False,
                    nav_blocking := Some True, step := Some 0\<rparr>] \<and>
   iter (state_of (navigate_to (\<lambda>x y. \<bar>x - y\<bar>) [1, 2, 0.5] False True 10
                     (init_client 0.1 0.1 1 []))) = 1 \<and>
   sent (state_of (arm_to (\<lambda>x y. \<bar>x - y\<bar>) (take 6) [0, 0.5, 0.1, 0, 0, 0] False
                     (init_client 0.1 0.1 1 []))) =
     [empty_action\<lparr>joint := Some [0, 0.5, 0.1, 0, 0, 0], manip_blocking := Some False,
                    step := Some 0\<rparr>] \<and>
   iter (recv (init_client 0.1 0.1 1
           [[\<lparr>gps = (1, 2), compass = 0.5, at_goal = True, obs_step = - 1,
              obs_control_mode = ''navigation''\<rparr>]])) = - 1 \<and>
   map step (sent (state_of (navigate_to (\<lambda>x y. \<bar>x - y\<bar>) [1, 2, 0.5] False False 10
      (recv (init_client 0.1 0.1 1
           [[\<lparr>gps = (1, 2), compass = 0.5, at_goal = True, obs_step = - 1,
              obs_control_mode = ''navigation''\<rparr>]]))))) = [Some (- 1)] \<and>
   iter (state_of (navigate_to (\<lambda>x y. \<bar>x - y\<bar>) [1, 2, 0.5] False False 10
      (recv (init_client 0.1 0.1 1
           [[\<lparr>gps = (1, 2), compass = 0.5, at_goal = True, obs_step = - 1,
              obs_control_mode = ''navigation''\<rparr>]])))) = 0"
proof -
  let ?c1 = "recv (init_client 0.1 0.1 1
           [[\<lparr>gps = (1, 2), compass = 0.5, at_goal = True, obs_step = - 1,
              obs_control_mode = ''navigation''\<rparr>]])"
  have e0: "next_action (init_client 0.1 0.1 1 []) = empty_action"
    by (simp add: init_client_def)
  have e1: "next_action ?c1 = empty_action"
    by (simp add: init_client_def)
  have i1: "iter ?c1 = - 1" and s1: "sent ?c1 = []"
    by (simp_all add: init_client_def recv_def spin_once_def update_obs_def Let_def)
  from commands_send_then_clear [OF e0, where q = "[0, 0.5, 0.1, 0, 0, 0]"
      and pose = "[1, 2, 0.5]" and ad = "\<lambda>x y. \<bar>x - y\<bar>" and cmc = "take 6" and b = False
      and relative = False and tmo = 10]
    commands_send_then_clear [OF e0, where q = "[0, 0.5, 0.1, 0, 0, 0]"
      and pose = "[1, 2, 0.5]" and ad = "\<lambda>x y. \<bar>x - y\<bar>" and cmc = "take 6" and b = True
      and relative = False and tmo = 10]
    commands_send_then_clear [OF e1, where q = "[0, 0.5, 0.1, 0, 0, 0]"
      and pose = "[1, 2, 0.5]" and ad = "\<lambda>x y. \<bar>x - y\<bar>" and cmc = "take 6" and b = False
      and relative = False and tmo = 10]
    i1 s1
  show ?thesis
    by (simp add: init_client_def)
qed

text \<open>
  A fresh client that never receives an observation: \<open>gripper_to\<close> with
  \<open>blocking=True\<close> returns after 2.2 seconds, step id 0 sent, no step completed.  And a
  client whose server reports \<open>-1\<close> as its last completed step: two blocking
  \<open>navigate_to\<close> calls in a row both return, and both were sent with the step id
  \<open>-1\<close>.
\<close>

theorem blocking_gripper_counterexample:
  "(let r = gripper_to (\<lambda>x y. \<bar>x - y\<bar>) 0.5 True (init_client 0.1 0.1 1 [])
    in r = Inr (state_of r) \<and>
       map step (sent (state_of r)) = [Some 0] \<and>
       obs (state_of r) = None \<and> last_step (state_of r) = - 1 \<and>
       clock (state_of r) = 2.2) \<and>
   (let ob = \<lparr>gps = (1, 2), compass = 0.5, at_goal = True, obs_step = - 1,
              obs_control_mode = ''navigation''\<rparr>;
        c = recv (init_client 0.1 0.1 1 [[ob], [ob], [ob], [ob], [ob], [ob], [ob]])
    in next_action c = empty_action \<and> iter c = - 1 \<and>
       (case navigate_to (\<lambda>x y. \<bar>x - y\<bar>) [1, 2, 0.5] False True 10 c of
          Inl x \<Rightarrow> False
        | Inr c1 \<Rightarrow>
            iter c1 = - 1 \<and>
            (case navigate_to (\<lambda>x y. \<bar>x - y\<bar>) [1, 2, 0.5] False True 10 c1 of
               Inl x \<Rightarrow> False
             | Inr c2 \<Rightarrow> map step (sent c2) = [Some (- 1), Some (- 1)])))"
  by (simp add: gripper_to_def navigate_to_def send_action_def goal_angle_of_def
      wait_for_action_def wait_loop_unfold poll_obs_def recv_def spin_once_def update_obs_def
      Let_def init_client_def wait_start_def norm2_def sleep_def empty_action_def)

subsection \<open>Trajectory execution\<close>

lemma debugger_frame [simp]:
  "debugger (spin_once c ob) = debugger c" "debugger (sleep d c) = debugger c"
  by (simp_all add: spin_once_def update_obs_def Let_def sleep_def)

lemma debugger_foldl_spin [simp]: "debugger (foldl spin_once c fs) = debugger c"
  by (induction fs arbitrary: c) simp_all

lemma debugger_recv [simp]: "debugger (recv c) = debugger c"
  by (simp add: recv_def split: list.splits)

















section \<open>Properties of the grasp operation\<close>

subsection \<open>Mask selection\<close>

lemma tracked_step:
  assumes "tracked f seen best pts"
  shows "tracked f (seen @ [i])
           (if more_than (num_pts (f i)) pts then Some (f i) else best)
           (if more_than (num_pts (f i)) pts then Some (num_pts (f i)) else pts)"
proof (cases "seen = []")
  case True
  with assms show ?thesis
    by (simp add: tracked_def largest_def more_than_def)
next
  case False
  with assms obtain b where b: "b \<in> set seen" "best = Some (f b)" "pts = Some (num_pts (f b))"
    and mx: "\<forall>j \<in> set seen. num_pts (f j) \<le> num_pts (f b)"
    by (auto simp: tracked_def largest_def)
  show ?thesis
  proof (cases "num_pts (f b) < num_pts (f i)")
    case True
    with b mx show ?thesis
      by (fastforce simp: tracked_def largest_def more_than_def)
  next
    case False
    with b mx show ?thesis
      by (fastforce simp: tracked_def largest_def more_than_def)
  qed
qed

lemma py_index_less: "py_index n i = Some r \<Longrightarrow> r < n"
  by (auto simp: py_index_def split: if_splits)

lemma np_get_map:
  "np_get (map (map f) a) y x = (case np_get a y x of Inl e \<Rightarrow> Inl e | Inr v \<Rightarrow> Inr (f v))"
proof (cases "py_index (length a) y")
  case None
  then show ?thesis by (simp add: np_get_def)
next
  case (Some r)
  then have r: "r < length a" by (rule py_index_less)
  show ?thesis
  proof (cases "py_index (length (a ! r)) x")
    case None
    with Some r show ?thesis by (simp add: np_get_def)
  next
    case inner: (Some k)
    then have "k < length (a ! r)" by (rule py_index_less)
    with Some inner r show ?thesis by (simp add: np_get_def)
  qed
qed

lemma np_get_mem: "np_get a y x = Inr v \<Longrightarrow> v \<in> set (concat a)"
  by (auto simp: np_get_def dest!: py_index_less split: option.splits) (metis nth_mem)

lemma set_np_unique [simp]: "set (np_unique a) = set (concat a)"
  by (simp add: np_unique_def)

lemma loop_short_circuit:
  assumes "np_get cm cy cx = Inr True" and "np_get inst cy cx = Inr v" and "v \<in> set ids"
  shows "target_mask_loop cm inst cx cy prev ids acc = Inr (Inl (eq_mask inst v))"
  using assms(3)
proof (induction ids arbitrary: acc)
  case Nil
  then show ?case by simp
next
  case (Cons i ids)
  have c: "centered_on cm (eq_mask inst i) cy cx = Inr (v = i)"
    using assms(1,2) by (simp add: centered_on_def eq_mask_def np_get_map)
  show ?case
  proof (cases "v = i")
    case True
    with c show ?thesis by simp
  next
    case False
    with Cons c show ?thesis by (simp add: Let_def)
  qed
qed

lemma loop_no_hit:
  assumes "np_get cm cy cx = Inr False"
    and "tracked (\<lambda>i. bitwise_and (eq_mask inst i) cm) seen (target_mask acc) (target_mask_pts acc)"
    and "prev = None \<longrightarrow> maximum_overlap_mask acc = None \<and> maximum_overlap_pts acc = None"
    and "\<forall>pm. prev = Some pm \<longrightarrow>
           tracked (\<lambda>i. bitwise_and (bitwise_and (eq_mask inst i) pm) cm) seen
             (maximum_overlap_mask acc) (maximum_overlap_pts acc)"
  shows "\<exists>acc'. target_mask_loop cm inst cx cy prev ids acc = Inr (Inr acc') \<and>
           tracked (\<lambda>i. bitwise_and (eq_mask inst i) cm) (seen @ ids)
             (target_mask acc') (target_mask_pts acc') \<and>
           (prev = None \<longrightarrow> maximum_overlap_mask acc' = None \<and> maximum_overlap_pts acc' = None) \<and>
           (\<forall>pm. prev = Some pm \<longrightarrow>
              tracked (\<lambda>i. bitwise_and (bitwise_and (eq_mask inst i) pm) cm) (seen @ ids)
                (maximum_overlap_mask acc') (maximum_overlap_pts acc'))"
  using assms(2,3,4)
proof (induction ids arbitrary: acc seen)
  case Nil
  then show ?case by simp
next
  case (Cons i ids)
  let ?cand = "\<lambda>i. bitwise_and (eq_mask inst i) cm"
  have c: "centered_on cm (eq_mask inst i) cy cx = Inr False"
    using assms(1) by (simp add: centered_on_def)
  define acc1 where "acc1 =
     (case prev of
        None \<Rightarrow> acc
      | Some pm \<Rightarrow>
          (if more_than (num_pts (bitwise_and (bitwise_and (eq_mask inst i) pm) cm))
                (maximum_overlap_pts acc)
           then acc\<lparr>maximum_overlap_pts :=
                       Some (num_pts (bitwise_and (bitwise_and (eq_mask inst i) pm) cm)),
                    maximum_overlap_mask := Some (bitwise_and (bitwise_and (eq_mask inst i) pm) cm)\<rparr>
           else acc))"
  define acc2 where "acc2 =
     (if more_than (num_pts (?cand i)) (target_mask_pts acc1)
      then acc1\<lparr>target_mask := Some (?cand i), target_mask_pts := Some (num_pts (?cand i))\<rparr>
      else acc1)"
  have unfold: "target_mask_loop cm inst cx cy prev (i # ids) acc =
                target_mask_loop cm inst cx cy prev ids acc2"
    using c by (cases prev) (simp_all add: Let_def acc1_def acc2_def)
  have same: "target_mask acc1 = target_mask acc" "target_mask_pts acc1 = target_mask_pts acc"
    by (simp_all add: acc1_def split: option.splits)
  have e2: "target_mask acc2 =
              (if more_than (num_pts (?cand i)) (target_mask_pts acc) then Some (?cand i)
               else target_mask acc)"
    "target_mask_pts acc2 =
              (if more_than (num_pts (?cand i)) (target_mask_pts acc)
               then Some (num_pts (?cand i)) else target_mask_pts acc)"
    by (simp_all add: acc2_def same)
  have t2: "tracked ?cand (seen @ [i]) (target_mask acc2) (target_mask_pts acc2)"
    unfolding e2 by (rule tracked_step [OF Cons.prems(1)])
  have n2: "prev = None \<longrightarrow> maximum_overlap_mask acc2 = None \<and> maximum_overlap_pts acc2 = None"
    using Cons.prems(2) by (simp add: acc2_def acc1_def)
  have o2: "\<forall>pm. prev = Some pm \<longrightarrow>
           tracked (\<lambda>i. bitwise_and (bitwise_and (eq_mask inst i) pm) cm) (seen @ [i])
             (maximum_overlap_mask acc2) (maximum_overlap_pts acc2)"
  proof (intro allI impI)
    fix pm
    assume Some: "prev = Some pm"
    let ?ov = "\<lambda>i. bitwise_and (bitwise_and (eq_mask inst i) pm) cm"
    from Some Cons.prems(3)
    have tr: "tracked ?ov seen (maximum_overlap_mask acc) (maximum_overlap_pts acc)" by simp
    have e: "maximum_overlap_mask acc2 =
              (if more_than (num_pts (?ov i)) (maximum_overlap_pts acc) then Some (?ov i)
               else maximum_overlap_mask acc)"
      "maximum_overlap_pts acc2 =
              (if more_than (num_pts (?ov i)) (maximum_overlap_pts acc)
               then Some (num_pts (?ov i)) else maximum_overlap_pts acc)"
      using Some by (simp_all add: acc2_def acc1_def)
    show "tracked ?ov (seen @ [i]) (maximum_overlap_mask acc2) (maximum_overlap_pts acc2)"
      unfolding e by (rule tracked_step [OF tr])
  qed
  from Cons.IH [OF t2 n2 o2] show ?case
    unfolding unfold by simp
qed

lemma tracked_start: "tracked f [] None None"
  by (simp add: tracked_def)

text \<open>
  C3 (as amended).  When the aim pixel lies in the class mask, selection returns the
  whole instance mask under that pixel.  When it does not, selection returns the
  continuity candidate (a largest instance-mask \<open>\<inter>\<close> previous-mask \<open>\<inter>\<close> class-mask) if a
  previous mask is given and that candidate has more than \<open>min_points_to_approach\<close>
  pixels; otherwise the best candidate (a largest instance-mask \<open>\<inter>\<close> class-mask), which
  exists as soon as the instance map has a pixel; otherwise the previous mask.
\<close>

theorem target_mask_selection:
  "(\<forall>v. np_get (get_class_mask col sv) cy cx = Inr True \<and> np_get (instance_ids sv) cy cx = Inr v \<longrightarrow>
        get_target_mask cfg col sv (cx, cy) prev = Inr (Some (eq_mask (instance_ids sv) v))) \<and>
   (np_get (get_class_mask col sv) cy cx = Inr False \<longrightarrow>
      (\<exists>r. get_target_mask cfg col sv (cx, cy) prev = Inr r \<and>
         (let cm = get_class_mask col sv;
              inst = instance_ids sv;
              ids = np_unique inst;
              cand = (\<lambda>i. bitwise_and (eq_mask inst i) cm);
              overlap = (\<lambda>pm i. bitwise_and (bitwise_and (eq_mask inst i) pm) cm)
          in if \<exists>pm. prev = Some pm \<and>
                  (\<exists>i \<in> set ids. min_points_to_approach cfg < num_pts (overlap pm i))
             then \<exists>pm. prev = Some pm \<and> largest (overlap pm) ids r
             else if ids \<noteq> [] then largest cand ids r
             else r = prev)))"
proof (intro conjI allI impI)
  fix v
  assume a: "np_get (get_class_mask col sv) cy cx = Inr True \<and>
             np_get (instance_ids sv) cy cx = Inr v"
  then have "v \<in> set (concat (instance_ids sv))"
    by (blast intro: np_get_mem)
  then have "v \<in> set (np_unique (instance_ids sv))"
    by (simp only: set_np_unique)
  with a show "get_target_mask cfg col sv (cx, cy) prev = Inr (Some (eq_mask (instance_ids sv) v))"
    by (simp add: get_target_mask_def Let_def loop_short_circuit)
next
  assume nohit: "np_get (get_class_mask col sv) cy cx = Inr False"
  define cm where "cm = get_class_mask col sv"
  define inst where "inst = instance_ids sv"
  define ids where "ids = np_unique inst"
  define cand where "cand = (\<lambda>i. bitwise_and (eq_mask inst i) cm)"
  define overlap where "overlap = (\<lambda>pm i. bitwise_and (bitwise_and (eq_mask inst i) pm) cm)"
  have "\<exists>acc'. target_mask_loop cm inst cx cy prev ids search_start = Inr (Inr acc') \<and>
           tracked (\<lambda>i. bitwise_and (eq_mask inst i) cm) ([] @ ids)
             (target_mask acc') (target_mask_pts acc') \<and>
           (prev = None \<longrightarrow> maximum_overlap_mask acc' = None \<and> maximum_overlap_pts acc' = None) \<and>
           (\<forall>pm. prev = Some pm \<longrightarrow>
              tracked (\<lambda>i. bitwise_and (bitwise_and (eq_mask inst i) pm) cm) ([] @ ids)
                (maximum_overlap_mask acc') (maximum_overlap_pts acc'))"
    using nohit
    by (intro loop_no_hit) (simp_all add: cm_def search_start_def tracked_start)
  then obtain acc where run: "target_mask_loop cm inst cx cy prev ids search_start = Inr (Inr acc)"
    and best: "tracked cand ids (target_mask acc) (target_mask_pts acc)"
    and none: "prev = None \<longrightarrow> maximum_overlap_mask acc = None \<and> maximum_overlap_pts acc = None"
    and over: "\<forall>pm. prev = Some pm \<longrightarrow> tracked (overlap pm) ids
                           (maximum_overlap_mask acc) (maximum_overlap_pts acc)"
    by (auto simp: cand_def overlap_def)
  let ?r = "select_mask (min_points_to_approach cfg) prev acc"
  have res: "get_target_mask cfg col sv (cx, cy) prev = Inr ?r"
    using run by (simp add: get_target_mask_def Let_def cm_def inst_def ids_def)
  have "if \<exists>pm. prev = Some pm \<and>
                  (\<exists>i \<in> set ids. min_points_to_approach cfg < num_pts (overlap pm i))
             then \<exists>pm. prev = Some pm \<and> largest (overlap pm) ids ?r
             else if ids \<noteq> [] then largest cand ids ?r
             else ?r = prev"
  proof (cases "ids = []")
    case True
    with best none over show ?thesis
      by (cases prev) (auto simp: tracked_def select_mask_def)
  next
    case ne: False
    with best have b: "largest cand ids (target_mask acc)"
      by (simp add: tracked_def)
    then have tm: "target_mask acc \<noteq> None"
      by (auto simp: largest_def)
    show ?thesis
    proof (cases prev)
      case None
      with none b tm ne show ?thesis
        by (simp add: select_mask_def)
    next
      case (Some pm)
      with over ne have o: "largest (overlap pm) ids (maximum_overlap_mask acc)"
        and p: "maximum_overlap_pts acc = map_option num_pts (maximum_overlap_mask acc)"
        by (simp_all add: tracked_def)
      from o obtain i where i: "i \<in> set ids" "maximum_overlap_mask acc = Some (overlap pm i)"
        and mx: "\<forall>j \<in> set ids. num_pts (overlap pm j) \<le> num_pts (overlap pm i)"
        by (auto simp: largest_def)
      have iff: "(\<exists>j \<in> set ids. min_points_to_approach cfg < num_pts (overlap pm j)) \<longleftrightarrow>
                 min_points_to_approach cfg < num_pts (overlap pm i)"
        using i mx by (meson le_less_trans less_le_trans)
      show ?thesis
        using Some o p i b tm ne iff by (simp add: select_mask_def)
    qed
  qed
  with res show "\<exists>r. get_target_mask cfg col sv (cx, cy) prev = Inr r \<and>
         (let cm = get_class_mask col sv;
              inst = instance_ids sv;
              ids = np_unique inst;
              cand = (\<lambda>i. bitwise_and (eq_mask inst i) cm);
              overlap = (\<lambda>pm i. bitwise_and (bitwise_and (eq_mask inst i) pm) cm)
          in if \<exists>pm. prev = Some pm \<and>
                  (\<exists>i \<in> set ids. min_points_to_approach cfg < num_pts (overlap pm i))
             then \<exists>pm. prev = Some pm \<and> largest (overlap pm) ids r
             else if ids \<noteq> [] then largest cand ids r
             else r = prev)"
    unfolding Let_def cm_def inst_def ids_def cand_def overlap_def by blast
qed


text \<open>A frame without the object, and a previous mask of four pixels.\<close>

theorem target_mask_selection_witness:
  "np_get (get_class_mask cup_sensor (servo (frame_of 0 500))) 1 1 = Inr False \<and>
   (\<exists>r. get_target_mask default_config cup_sensor (servo (frame_of 0 500)) (1, 1)
          (Some [[True, True], [True, True]]) = Inr r \<and>
        largest (\<lambda>i. bitwise_and (eq_mask (instance_ids (servo (frame_of 0 500))) i)
                       (get_class_mask cup_sensor (servo (frame_of 0 500))))
          (np_unique (instance_ids (servo (frame_of 0 500)))) r)"
proof -
  have nohit: "np_get (get_class_mask cup_sensor (servo (frame_of 0 500))) 1 1 = Inr False"
    by (simp add: get_class_mask_def cup_sensor_def frame_of_def np_unique_def zeros_like_def
        np_get_def py_index_def)
  have small: "\<not> (\<exists>pm. Some [[True, True], [True, True]] = Some pm \<and>
      (\<exists>i \<in> set (np_unique (instance_ids (servo (frame_of 0 500)))).
          min_points_to_approach default_config
            < num_pts (bitwise_and (bitwise_and (eq_mask (instance_ids (servo (frame_of 0 500))) i) pm)
                         (get_class_mask cup_sensor (servo (frame_of 0 500))))))"
    by (simp add: default_config_def frame_of_def np_unique_def num_pts_def bitwise_and_def
        eq_mask_def get_class_mask_def cup_sensor_def zeros_like_def)
  have ne: "np_unique (instance_ids (servo (frame_of 0 500))) \<noteq> []"
    by (simp add: frame_of_def np_unique_def)
  from target_mask_selection [where col = cup_sensor and sv = "servo (frame_of 0 500)"
      and cy = 1 and cx = 1 and cfg = default_config and prev = "Some [[True, True], [True, True]]"]
    nohit
  obtain r where "get_target_mask default_config cup_sensor (servo (frame_of 0 500)) (1, 1)
          (Some [[True, True], [True, True]]) = Inr r"
    and "if \<exists>pm. Some [[True, True], [True, True]] = Some pm \<and>
      (\<exists>i \<in> set (np_unique (instance_ids (servo (frame_of 0 500)))).
          min_points_to_approach default_config
            < num_pts (bitwise_and (bitwise_and (eq_mask (instance_ids (servo (frame_of 0 500))) i) pm)
                         (get_class_mask cup_sensor (servo (frame_of 0 500)))))
         then \<exists>pm. Some [[True, True], [True, True]] = Some pm \<and>
              largest (\<lambda>i. bitwise_and (bitwise_and (eq_mask (instance_ids (servo (frame_of 0 500))) i) pm)
                         (get_class_mask cup_sensor (servo (frame_of 0 500))))
                (np_unique (instance_ids (servo (frame_of 0 500)))) r
         else if np_unique (instance_ids (servo (frame_of 0 500))) \<noteq> []
         then largest (\<lambda>i. bitwise_and (eq_mask (instance_ids (servo (frame_of 0 500))) i)
                       (get_class_mask cup_sensor (servo (frame_of 0 500))))
                (np_unique (instance_ids (servo (frame_of 0 500)))) r
         else r = Some [[True, True], [True, True]]"
    unfolding Let_def by blast
  with small ne nohit show ?thesis
    by (simp only: if_False if_True not_False_eq_True) blast
qed

text \<open>
  The same frame: the previous mask has four pixels, and selection answers a mask
  with none.
\<close>

theorem empty_mask_despite_previous_counterexample:
  "num_pts [[True, True], [True, True]] = 4 \<and>
   get_target_mask default_config cup_sensor (servo (frame_of 0 500)) (1, 1)
     (Some [[True, True], [True, True]]) = Inr (Some [[False, False], [False, False]]) \<and>
   num_pts [[False, False], [False, False]] = 0"
  by (simp add: get_target_mask_def get_class_mask_def cup_sensor_def frame_of_def
      np_unique_def zeros_like_def centered_on_def np_get_def py_index_def Let_def
      search_start_def more_than_def select_mask_def bitwise_and_def eq_mask_def num_pts_def
      default_config_def)

subsection \<open>Losing the object\<close>

lemma sees_nothing_iteration:
  "sees_nothing cfg col fr (prev_target_mask st) \<Longrightarrow>
     servo_iteration cfg col fr st op = servo_lost cfg col fr st op"
  by (auto simp: sees_nothing_def servo_iteration_def Let_def
      split: sum.splits option.splits)

text \<open>
  C5.  In an iteration the loop enters, with an empty target mask and no alignment
  so far, the iteration returns \<open>False\<close> and \<open>visual_servo_to_object\<close> returns
  \<open>False\<close> at once; the operation, and with it the list of commands issued to the
  robot, is unchanged.
\<close>

theorem empty_mask_before_alignment_fails:
  assumes "now fr - t0 < max_duration" and "\<not> aligned_once st"
    and "sees_nothing cfg col fr (prev_target_mask st)"
  shows "servo_iteration cfg col fr st op = (Return (Some False), op) \<and>
         servo_loop cfg col t0 max_duration (fr # frs) st op = Some (Returned (Some False), op)"
  using assms by (simp add: sees_nothing_iteration servo_lost_def)


text \<open>The first frame shows no object.\<close>

theorem empty_mask_before_alignment_fails_witness:
  "now (frame_of 0 500) - 0 < 120 \<and> \<not> aligned_once servo_start \<and>
   sees_nothing default_config cup_sensor (frame_of 0 500) (prev_target_mask servo_start) \<and>
   visual_servo_to_object default_config cup_sensor 0 120 [frame_of 0 500] idle =
     Some (Returned (Some False), idle)"
proof -
  have a: "now (frame_of 0 500) - 0 < 120"
    by (simp add: frame_of_def)
  have b: "\<not> aligned_once servo_start"
    by (simp add: servo_start_def)
  have c: "sees_nothing default_config cup_sensor (frame_of 0 500) (prev_target_mask servo_start)"
    by (simp add: sees_nothing_def servo_iteration_def servo_track_def servo_lost_def servo_approach_def
      aim_center_def image_center_def default_config_def get_target_mask_def frame_of_def
      np_unique_def centered_on_def np_get_def py_index_def Let_def search_start_def
      more_than_def select_mask_def bitwise_and_def eq_mask_def num_pts_def
      mask_center_of_def argwhere_def mean_def shape_def get_class_mask_def cup_sensor_def
      zeros_like_def bitwise_or_def servo_start_def idle_def grasp_def rest_joints_def)
  from empty_mask_before_alignment_fails [OF a b c, of idle "[]"] a b c
  show ?thesis
    by (simp add: visual_servo_to_object_def)
qed



subsection \<open>The open-loop grasp\<close>

text \<open>
  C7.  When the solver reports no solution, or the solved arm extension or lift is
  negative, the open-loop grasp sets the success flag to \<open>False\<close> and issues no
  command.  The solver is consulted for one target only: two sets of collaborators
  that agree on that one answer (and on the other two functions) lead to the same
  result.
\<close>

theorem open_loop_rejects:
  "((let solved = manip_ik_for_grasp_frame col
                    (point_global_to_base col object_xyz (base_pose rd))
                    (snd (manip_fk col (arm_joint_state rd))) (arm_joint_state rd)
     in \<not> snd solved \<or> ARM (fst solved) < 0 \<or> LIFT (fst solved) < 0) \<longrightarrow>
    grasp_open_loop cfg col rd object_xyz op = op\<lparr>success_flag := False\<rparr> \<and>
    calls (grasp_open_loop cfg col rd object_xyz op) = calls op \<and>
    \<not> was_successful (grasp_open_loop cfg col rd object_xyz op)) \<and>
   (\<forall>col'. point_global_to_base col' = point_global_to_base col \<and>
           manip_fk col' = manip_fk col \<and>
           manip_ik_for_grasp_frame col'
               (point_global_to_base col object_xyz (base_pose rd))
               (snd (manip_fk col (arm_joint_state rd))) (arm_joint_state rd) =
             manip_ik_for_grasp_frame col
               (point_global_to_base col object_xyz (base_pose rd))
               (snd (manip_fk col (arm_joint_state rd))) (arm_joint_state rd) \<longrightarrow>
           grasp_open_loop cfg col' rd object_xyz op = grasp_open_loop cfg col rd object_xyz op)"
  by (auto simp: grasp_open_loop_def was_successful_def Let_def)

text \<open>A solver that claims success with an arm extension of \<open>-0.01\<close>.\<close>

theorem open_loop_rejects_witness:
  "snd (manip_ik_for_grasp_frame cup_sensor (1, 0, 0) [0, 0, 0, 1] rest_joints) \<and>
   ARM (fst (manip_ik_for_grasp_frame cup_sensor (1, 0, 0) [0, 0, 0, 1] rest_joints)) = - 0.01 \<and>
   grasp_open_loop default_config cup_sensor (reading (frame_of 0 500)) (1, 0, 0) idle =
     idle\<lparr>success_flag := False\<rparr> \<and>
   calls (grasp_open_loop default_config cup_sensor (reading (frame_of 0 500)) (1, 0, 0) idle) = [] \<and>
   \<not> was_successful
       (grasp_open_loop default_config cup_sensor (reading (frame_of 0 500)) (1, 0, 0) idle)"
proof -
  have negative: "let solved = manip_ik_for_grasp_frame cup_sensor
                    (point_global_to_base cup_sensor (1, 0, 0) (base_pose (reading (frame_of 0 500))))
                    (snd (manip_fk cup_sensor (arm_joint_state (reading (frame_of 0 500)))))
                    (arm_joint_state (reading (frame_of 0 500)))
     in \<not> snd solved \<or> ARM (fst solved) < 0 \<or> LIFT (fst solved) < 0"
    by (simp add: cup_sensor_def)
  have "grasp_open_loop default_config cup_sensor (reading (frame_of 0 500)) (1, 0, 0) idle =
          idle\<lparr>success_flag := False\<rparr> \<and>
        calls (grasp_open_loop default_config cup_sensor (reading (frame_of 0 500)) (1, 0, 0) idle) =
          calls idle \<and>
        \<not> was_successful
            (grasp_open_loop default_config cup_sensor (reading (frame_of 0 500)) (1, 0, 0) idle)"
    by (rule conjunct1 [OF open_loop_rejects, THEN mp, OF negative])
  moreover have "snd (manip_ik_for_grasp_frame cup_sensor (1, 0, 0) [0, 0, 0, 1] rest_joints)"
    and "ARM (fst (manip_ik_for_grasp_frame cup_sensor (1, 0, 0) [0, 0, 0, 1] rest_joints)) = - 0.01"
    and "calls idle = []"
    by (simp_all add: cup_sensor_def idle_def)
  ultimately show ?thesis by (simp add: was_successful_def)
qed

subsection \<open>The grasp decision\<close>

text \<open>
  With a target mask of more than \<open>min_points_to_approach\<close> pixels that holds the aim
  pixel, the controller grasps and leaves the loop when the depth at the aim pixel is
  below the close-range threshold, and issues a single arm motion and no grasp when
  that depth and the median object depth are both at or above it.
\<close>

lemma approach_grasp_decision:
  assumes "\<not> open_loop cfg" and "np_get tm (snd center) (fst center) = Inr True"
  shows "center_depth < median_distance_when_grasping cfg \<longrightarrow>
           servo_approach cfg fr tm mc center center_depth st op =
             (Break (st\<lparr>prev_target_mask := Some tm, success := True\<rparr>), grasp fr op)"
    and "\<not> center_depth < median_distance_when_grasping cfg \<and>
         \<not> np_median (masked_values (ee_depth (servo fr)) tm) / 1000
             < median_distance_when_grasping cfg \<longrightarrow>
           (\<exists>st' q. servo_approach cfg fr tm mc center center_depth st op =
             (Continue st', op\<lparr>calls := calls op @ [ArmTo6 q True]\<rparr>))"
  using assms by (auto simp: servo_approach_def Let_def)

text \<open>
  C4, on a target mask of four pixels (not more than \<open>min_points_to_approach\<close>): the
  aim pixel is in the mask and the depth there is 0.15 m, below the threshold of
  0.175 m.  The iteration commands the grasp and continues the loop instead of
  leaving it; the next frame shows no object and the call returns \<open>False\<close>, with the
  grasp already executed.
\<close>

theorem small_mask_grasp_goes_on:
  "get_target_mask default_config cup_sensor (servo (frame_of 7 150))
     (aim_center default_config (frame_of 7 150)) None = Inr (Some [[True, True], [True, True]]) \<and>
   aim_center default_config (frame_of 7 150) = (1, 1) \<and>
   np_get [[True, True], [True, True]] 1 1 = Inr True \<and>
   np_get (ee_depth (servo (frame_of 7 150))) 1 1 = Inr 150 \<and>
   servo_iteration default_config cup_sensor (frame_of 7 150) servo_start idle =
     (Continue (servo_start\<lparr>success := True, current_xyz := Some (1, 0, 0)\<rparr>),
      grasp (frame_of 7 150) idle) \<and>
   visual_servo_to_object default_config cup_sensor 0 120 [frame_of 7 150, frame_of 0 500] idle =
     Some (Returned (Some False), grasp (frame_of 7 150) idle)"
  by (simp add: visual_servo_to_object_def servo_iteration_def servo_track_def servo_lost_def servo_approach_def
      aim_center_def image_center_def default_config_def get_target_mask_def frame_of_def
      np_unique_def centered_on_def np_get_def py_index_def Let_def search_start_def
      more_than_def select_mask_def bitwise_and_def eq_mask_def num_pts_def
      mask_center_of_def argwhere_def mean_def shape_def get_class_mask_def cup_sensor_def
      zeros_like_def bitwise_or_def servo_start_def idle_def grasp_def rest_joints_def)

end
